theory Spec2Isabelle
  imports Complex_Main
begin

section \<open>Python values used by the pipeline\<close>

text \<open>
  Exceptions are values. Only subclasses of Python's \<open>Exception\<close> are modelled, since
  these are what the handlers of the pipeline (\<open>except Exception as e\<close>) catch.
  The string carried by each constructor is the message, except for \<open>KeyError\<close>,
  which carries the missing key.
\<close>

datatype exn =
    AttributeError string
  | KeyError string
  | TypeError string
  | ValueError string
  | Exception string

text \<open>\<open>str(e)\<close>: the message; for a \<open>KeyError\<close> the quoted key.\<close>

fun str_exn :: "exn \<Rightarrow> string" where
  "str_exn (AttributeError m) = m"
| "str_exn (KeyError k) = [CHR 0x27] @ k @ [CHR 0x27]"
| "str_exn (TypeError m) = m"
| "str_exn (ValueError m) = m"
| "str_exn (Exception m) = m"

text \<open>
  \<open>range(0, len(lst), n)\<close> with the slices \<open>lst[i : i + n]\<close>: the list cut into
  consecutive pieces of \<open>n\<close> elements, the last one possibly shorter. The two step
  sizes of the pipeline are the positive constants \<open>BATCH_SIZE\<close> and \<open>GROUP_SIZE\<close>.
\<close>

function chunks :: "nat \<Rightarrow> 'a list \<Rightarrow> 'a list list" where
  "chunks n xs = (if n = 0 \<or> xs = [] then [] else take n xs # chunks n (drop n xs))"
  by pat_completeness auto
termination
  by (relation "measure (\<lambda>(n, xs). length xs)") auto

declare chunks.simps [simp del]

section \<open>Data ingestion layer (scripts/pipelines/daily\_eod\_pipeline.py)\<close>

definition LOOKBACK_DAYS :: int where "LOOKBACK_DAYS = 5"
definition BATCH_SIZE :: nat where "BATCH_SIZE = 10"
definition GROUP_SIZE :: nat where "GROUP_SIZE = 5"

text \<open>Instants are microseconds since the epoch; \<open>timedelta(days=d)\<close> is a difference.\<close>

type_synonym instant = int

definition days :: "int \<Rightarrow> int" where
  "days d = d * 86400 * 1000000"

text \<open>\<open>self.stats\<close> of \<open>DataIngestionOrchestrator\<close>, as \<open>__init__\<close> creates it.\<close>

record ingestion_stats =
  total_assets :: nat
  successful :: nat
  failed :: nat
  skipped :: nat
  total_records :: int

definition init_stats :: ingestion_stats where
  "init_stats = \<lparr>total_assets = 0, successful = 0, failed = 0, skipped = 0, total_records = 0\<rparr>"

text \<open>
  A row of \<open>fetch_active_assets\<close>: the query selects the columns \<open>symbol\<close> and
  \<open>yfinance_ticker\<close>, so both keys are present in every row; the ticker may be null.
\<close>

record asset =
  symbol :: string
  yfinance_ticker :: "string option"

text \<open>\<open>a.get("yfinance_ticker") or a["symbol"]\<close>: a null or empty ticker is falsy.\<close>

definition group_symbol :: "asset \<Rightarrow> string" where
  "group_symbol a =
     (case yfinance_ticker a of
        None \<Rightarrow> symbol a
      | Some t \<Rightarrow> if t = [] then symbol a else t)"

text \<open>
  The values that a group summary holds for a symbol. The entry of a symbol is read with
  \<open>summary["results"].get(sym, {})\<close>: it is a dictionary or, like any value of a
  dictionary, \<open>None\<close>. A dictionary is read with \<open>res.get("status")\<close> (the field
  \<open>res_status\<close>, \<open>None\<close> when the key is absent or holds no string) and with
  \<open>res.get("records_stored", 0)\<close> (the field \<open>records_stored\<close>: \<open>None\<close> when the key is
  absent, otherwise the value stored under it, which may itself be Python's \<open>None\<close>).
  Of the summary only the entry \<open>"results"\<close> is read.
\<close>

datatype py_value = PyNone | PyInt int | PyStr string

record sym_result =
  res_status :: "string option"
  records_stored :: "py_value option"

datatype res_value = ResNone | ResDict sym_result

type_synonym results = "string \<rightharpoonup> res_value"
type_synonym summary = "string \<rightharpoonup> results"

text \<open>The keyword arguments of the group call.\<close>

record fetch_request =
  symbols :: "string list"
  start_date :: instant
  end_date :: instant
  granularity :: string
  group_size :: nat
  validate :: bool

text \<open>
  A bound method taking these arguments: it runs on the state \<open>'w\<close> of the world outside
  the orchestrator (provider, storage) and either raises or returns a summary. A service
  object is its attribute table.
\<close>

type_synonym 'w fetch_method = "fetch_request \<Rightarrow> 'w \<Rightarrow> (exn + summary) \<times> 'w"
type_synonym 'w service = "string \<rightharpoonup> 'w fetch_method"

text \<open>
  \<open>await self.pipeline_service.run_multi_fetch_store(...)\<close>: the attribute lookup
  raises \<open>AttributeError\<close> when the object has no such attribute.
\<close>

definition call_run_multi_fetch_store ::
  "'w service \<Rightarrow> fetch_request \<Rightarrow> 'w \<Rightarrow> (exn + summary) \<times> 'w" where
  "call_run_multi_fetch_store svc req w =
     (case svc ''run_multi_fetch_store'' of
        None \<Rightarrow> (Inl (AttributeError ''object has no attribute run_multi_fetch_store''), w)
      | Some m \<Rightarrow> m req w)"

text \<open>
  The body of \<open>for sym in group_symbols\<close>: the stats as the body leaves them and the
  exception it raises, if any. \<open>res.get\<close> on an entry that is \<open>None\<close> raises
  \<open>AttributeError\<close> before a counter has moved; \<open>total_records += records\<close> raises
  \<open>TypeError\<close> for a value that is not a number, after \<open>successful\<close> has been
  incremented.
\<close>

definition count_symbol ::
  "results \<Rightarrow> ingestion_stats \<Rightarrow> string \<Rightarrow> ingestion_stats \<times> exn option" where
  "count_symbol res_map st sy =
     (case res_map sy of
        Some ResNone \<Rightarrow> (st, Some (AttributeError ''NoneType object has no attribute get''))
      | entry \<Rightarrow>
          (let res = (case entry of
                        Some (ResDict r) \<Rightarrow> r
                      | _ \<Rightarrow> \<lparr>res_status = None, records_stored = None\<rparr>);
               records = (case records_stored res of None \<Rightarrow> PyInt 0 | Some v \<Rightarrow> v)
           in if res_status res = Some ''success''
              then (let st1 = st\<lparr>successful := successful st + 1\<rparr>
                    in case records of
                         PyInt n \<Rightarrow> (st1\<lparr>total_records := total_records st1 + n\<rparr>, None)
                       | _ \<Rightarrow> (st1, Some (TypeError ''unsupported operand type(s) for +='')))
              else if res_status res = Some ''skipped''
              then (st\<lparr>skipped := skipped st + 1\<rparr>, None)
              else (st\<lparr>failed := failed st + 1\<rparr>, None)))"

text \<open>The loop over the symbols of a group: it ends at the first exception.\<close>

fun count_symbols ::
  "results \<Rightarrow> ingestion_stats \<Rightarrow> string list \<Rightarrow> ingestion_stats \<times> exn option" where
  "count_symbols res_map st [] = (st, None)"
| "count_symbols res_map st (sy # rest) =
     (case count_symbol res_map st sy of
        (st1, Some e) \<Rightarrow> (st1, Some e)
      | (st1, None) \<Rightarrow> count_symbols res_map st1 rest)"

definition group_request :: "instant \<Rightarrow> asset list \<Rightarrow> fetch_request" where
  "group_request now grp =
     \<lparr>symbols = map group_symbol grp,
      start_date = now - days LOOKBACK_DAYS,
      end_date = now,
      granularity = ''daily'',
      group_size = GROUP_SIZE,
      validate = True\<rparr>"

text \<open>
  One iteration of the inner loop: the \<open>try\<close> block with its handler. The block holds
  the call and the loop over the symbols, so the handler is reached by a raising call, by
  a summary without \<open>"results"\<close> (a \<open>KeyError\<close>), and by an exception of the loop; in the
  last case it adds the size of the group to \<open>failed\<close> on the stats as the loop has left
  them.
\<close>

definition process_group ::
  "'w service \<Rightarrow> instant \<Rightarrow> ingestion_stats \<times> 'w \<Rightarrow> asset list \<Rightarrow> ingestion_stats \<times> 'w" where
  "process_group svc now sw grp =
     (let st = fst sw;
          group_symbols = map group_symbol grp;
          (r, w') = call_run_multi_fetch_store svc (group_request now grp) (snd sw)
      in case r of
           Inl e \<Rightarrow> (st\<lparr>failed := failed st + length group_symbols\<rparr>, w')
         | Inr summ \<Rightarrow>
             (case summ ''results'' of
                None \<Rightarrow> (st\<lparr>failed := failed st + length group_symbols\<rparr>, w')
              | Some res_map \<Rightarrow>
                  (case count_symbols res_map st group_symbols of
                     (st1, None) \<Rightarrow> (st1, w')
                   | (st1, Some e) \<Rightarrow>
                       (st1\<lparr>failed := failed st1 + length group_symbols\<rparr>, w'))))"

definition process_batch ::
  "'w service \<Rightarrow> instant \<Rightarrow> ingestion_stats \<times> 'w \<Rightarrow> asset list \<Rightarrow> ingestion_stats \<times> 'w" where
  "process_batch svc now sw batch = foldl (process_group svc now) sw (chunks GROUP_SIZE batch)"

text \<open>
  \<open>ingest_daily_data\<close>: \<open>now\<close> is the clock reading taken for \<open>end_date\<close>; the pair is
  \<open>self.stats\<close> and the outside world before the call, and after it.
\<close>

definition ingest_daily_data ::
  "'w service \<Rightarrow> instant \<Rightarrow> asset list \<Rightarrow> ingestion_stats \<times> 'w \<Rightarrow> ingestion_stats \<times> 'w" where
  "ingest_daily_data svc now assets sw =
     foldl (process_batch svc now)
       ((fst sw)\<lparr>total_assets := length assets\<rparr>, snd sw)
       (chunks BATCH_SIZE assets)"

text \<open>The groups of a run, in the order in which the nested loops reach them.\<close>

definition groups_of :: "asset list \<Rightarrow> asset list list" where
  "groups_of assets = concat (map (chunks GROUP_SIZE) (chunks BATCH_SIZE assets))"

section \<open>Pipeline service (backend/api/services/pipeline\_service.py)\<close>

text \<open>
  The attributes of a \<open>PipelineService\<close> object: the three fields set by \<open>__init__\<close>
  and the methods of the class. None of them accepts the keyword arguments of the group
  call, so calling any of them that way raises \<open>TypeError\<close>.
\<close>

definition PipelineService_attributes :: "string list" where
  "PipelineService_attributes =
     [''status'', ''logger'', ''metrics'', ''__init__'', ''run_pipeline'',
      ''_tier1_ingestion'', ''_tier2_validation'', ''_tier3_analytics'',
      ''_tier4_cache'', ''get_status'']"

definition PipelineService :: "'w service" where
  "PipelineService name =
     (if name \<in> set PipelineService_attributes
      then Some (\<lambda>req w. (Inl (TypeError ''unexpected keyword argument''), w))
      else None)"

section \<open>Storage gateway\<close>

text \<open>
  The two tables the pipeline reads, with the columns its queries constrain, and for each
  query site of the pipeline whether \<open>execute()\<close> raises there.
\<close>

record price_row =
  asset_id :: nat
  timestamp :: instant
  close :: "rat option"

record asset_row = asset +
  is_active :: int

datatype query =
    ActiveAssetsQ
  | CompletenessRecordsQ
  | CompletenessAssetsQ
  | FreshnessQ
  | QualityNullsQ
  | QualityTotalQ
  | CoverageQ

record storage =
  price_history :: "price_row list"
  assets_table :: "asset_row list"
  fault :: "query \<Rightarrow> exn option"

definition execute :: "storage \<Rightarrow> query \<Rightarrow> 'a \<Rightarrow> exn + 'a" where
  "execute db q r = (case fault db q of Some e \<Rightarrow> Inl e | None \<Rightarrow> Inr r)"

text \<open>\<open>count="exact"\<close> fills \<open>response.count\<close> with the number of matching rows.\<close>

definition count_exact :: "'a list \<Rightarrow> nat option" where
  "count_exact rows = Some (length rows)"

text \<open>\<open>response.count or d\<close>: \<open>None\<close> and \<open>0\<close> are falsy.\<close>

definition py_or :: "nat option \<Rightarrow> nat \<Rightarrow> nat" where
  "py_or c d = (case c of None \<Rightarrow> d | Some n \<Rightarrow> if n = 0 then d else n)"

text \<open>\<open>str(n)\<close> of a non-negative integer.\<close>

function str_nat :: "nat \<Rightarrow> string" where
  "str_nat n =
     (if n < 10 then [''0123456789'' ! n]
      else str_nat (n div 10) @ [''0123456789'' ! (n mod 10)])"
  by pat_completeness auto
termination
  by (relation "measure id") auto

declare str_nat.simps [simp del]

text \<open>
  The two float formats of the f-strings, \<open>{x:.1f}\<close> and \<open>{x:.2%}\<close>, are parameters of
  the model.
\<close>

record fmt =
  fixed1 :: "rat \<Rightarrow> string"
  percent2 :: "rat \<Rightarrow> string"

definition fetch_active_assets :: "storage \<Rightarrow> exn + asset list" where
  "fetch_active_assets db =
     execute db ActiveAssetsQ (map asset.truncate (filter (\<lambda>a. is_active a = 1) (assets_table db)))"

section \<open>Data validation layer (scripts/pipelines/daily\_eod\_pipeline.py)\<close>

definition MIN_DATA_POINTS_REQUIRED :: nat where "MIN_DATA_POINTS_REQUIRED = 5"
definition MAX_MISSING_RATIO :: rat where "MAX_MISSING_RATIO = 1 / 10"
definition MIN_ASSETS_REQUIRED :: nat where "MIN_ASSETS_REQUIRED = 50"

text \<open>
  \<open>self.validation_results\<close>; the field \<open>vr_passed\<close> is its entry \<open>"passed"\<close>, the
  aggregate.
\<close>

record check =
  passed :: bool
  details :: string

record validation_results =
  vr_passed :: bool
  checks :: "string \<rightharpoonup> check"
  errors :: "string list"
  warnings :: "string list"

definition init_validation_results :: validation_results where
  "init_validation_results = \<lparr>vr_passed = False, checks = Map.empty, errors = [], warnings = []\<rparr>"

text \<open>
  The numbers of the checks are Python floats; the model computes with rationals. The
  three comparisons involved agree with their exact counterparts on every input the
  pipeline can meet: \<open>n * 0.8\<close> rounds to \<open>4 n / 5\<close> for a multiple \<open>n\<close> of five,
  an age above 48 hours by a microsecond or more stays above 48.0 after the division, and
  a quotient of two row counts exceeds the double \<open>0.1\<close> exactly when it exceeds one
  tenth, for counts below \<open>2 ^ 52\<close>.
\<close>

definition set_check :: "string \<Rightarrow> bool \<Rightarrow> string \<Rightarrow> validation_results \<Rightarrow> validation_results" where
  "set_check name p d vr = vr\<lparr>checks := (checks vr)(name \<mapsto> \<lparr>passed = p, details = d\<rparr>)\<rparr>"

definition add_error :: "string \<Rightarrow> validation_results \<Rightarrow> validation_results" where
  "add_error msg vr = vr\<lparr>errors := errors vr @ [msg]\<rparr>"

definition add_warning :: "string \<Rightarrow> validation_results \<Rightarrow> validation_results" where
  "add_warning msg vr = vr\<lparr>warnings := warnings vr @ [msg]\<rparr>"

text \<open>The rows at or after \<open>now - timedelta(days=7)\<close>.\<close>

definition recent_rows :: "storage \<Rightarrow> instant \<Rightarrow> price_row list" where
  "recent_rows db now = filter (\<lambda>r. now - days 7 \<le> timestamp r) (price_history db)"

definition check_data_completeness ::
  "storage \<Rightarrow> instant \<Rightarrow> validation_results \<Rightarrow> validation_results" where
  "check_data_completeness db now vr =
     (let handler = (\<lambda>e. add_error (''Completeness check error: '' @ str_exn e)
                           (set_check ''completeness'' False (str_exn e) vr))
      in case execute db CompletenessRecordsQ (count_exact (recent_rows db now)) of
           Inl e \<Rightarrow> handler e
         | Inr c \<Rightarrow>
             (let total_records = py_or c 0
              in case execute db CompletenessAssetsQ
                        (count_exact (filter (\<lambda>a. is_active a = 1) (assets_table db))) of
                   Inl e \<Rightarrow> handler e
                 | Inr ca \<Rightarrow>
                     (let active_assets = py_or ca 0;
                          expected_assets = min active_assets MIN_ASSETS_REQUIRED;
                          expected_records = expected_assets * MIN_DATA_POINTS_REQUIRED;
                          tolerance_ratio = (8 / 10 :: rat)
                      in if int total_records \<ge> \<lfloor>of_nat expected_records * tolerance_ratio\<rfloor>
                         then set_check ''completeness'' True
                                (str_nat total_records @ '' recent records found'') vr
                         else add_error (''Insufficient data points: '' @ str_nat total_records)
                                (set_check ''completeness'' False
                                   (''Only '' @ str_nat total_records @ '' records found'') vr))))"

text \<open>\<open>order("timestamp", desc=True).limit(1)\<close>\<close>

definition latest_rows :: "storage \<Rightarrow> price_row list" where
  "latest_rows db = take 1 (rev (sort_key timestamp (price_history db)))"

definition check_data_freshness ::
  "fmt \<Rightarrow> storage \<Rightarrow> instant \<Rightarrow> validation_results \<Rightarrow> validation_results" where
  "check_data_freshness F db now vr =
     (case execute db FreshnessQ (latest_rows db) of
        Inl e \<Rightarrow> add_error (''Freshness check error: '' @ str_exn e)
                   (set_check ''freshness'' False (str_exn e) vr)
      | Inr [] \<Rightarrow> add_error ''No data in price_history table''
                   (set_check ''freshness'' False ''No data found in price_history'' vr)
      | Inr (r # rs) \<Rightarrow>
          (let latest_timestamp = timestamp r;
               age_hours = (of_int (now - latest_timestamp) / 1000000 / 3600 :: rat)
           in if age_hours \<le> 48
              then set_check ''freshness'' True
                     (''Latest data is '' @ fixed1 F age_hours @ '' hours old'') vr
              else add_error (''Stale data: '' @ fixed1 F age_hours @ '' hours old'')
                     (set_check ''freshness'' False
                        (''Data is '' @ fixed1 F age_hours @ '' hours old'') vr)))"

text \<open>
  The two counts of the quality check, as its two queries select them: the first has no
  filter on the timestamp.
\<close>

definition null_close_rows :: "storage \<Rightarrow> price_row list" where
  "null_close_rows db = filter (\<lambda>r. close r = None) (price_history db)"

definition null_ratio :: "nat option \<Rightarrow> nat option \<Rightarrow> rat" where
  "null_ratio c ct =
     (let null_count = py_or c 0;
          total_count = py_or ct 1
      in if total_count > 0 then of_nat null_count / of_nat total_count else 0)"

definition check_data_quality ::
  "fmt \<Rightarrow> storage \<Rightarrow> instant \<Rightarrow> validation_results \<Rightarrow> validation_results" where
  "check_data_quality F db now vr =
     (let handler = (\<lambda>e. add_warning (''Quality check error: '' @ str_exn e)
                           (set_check ''quality'' True (str_exn e) vr))
      in case execute db QualityNullsQ (count_exact (null_close_rows db)) of
           Inl e \<Rightarrow> handler e
         | Inr c \<Rightarrow>
             (case execute db QualityTotalQ (count_exact (recent_rows db now)) of
                Inl e \<Rightarrow> handler e
              | Inr ct \<Rightarrow>
                  (if null_ratio c ct \<le> MAX_MISSING_RATIO
                   then set_check ''quality'' True
                          (''Null ratio: '' @ percent2 F (null_ratio c ct)) vr
                   else add_warning (''High null ratio: '' @ percent2 F (null_ratio c ct))
                          (set_check ''quality'' True
                             (''Null ratio: '' @ percent2 F (null_ratio c ct)) vr))))"

text \<open>
  The null ratio as the specification words it, for comparison with the two counts of
  \<open>check_data_quality\<close>: the number of rows with a null close price within the trailing
  seven days, divided by the number of all rows within the same seven days.
\<close>

definition windowed_null_ratio :: "storage \<Rightarrow> instant \<Rightarrow> rat" where
  "windowed_null_ratio db now =
     of_nat (length (filter (\<lambda>r. close r = None) (recent_rows db now)))
       / of_nat (length (recent_rows db now))"

definition check_asset_coverage :: "storage \<Rightarrow> validation_results \<Rightarrow> validation_results" where
  "check_asset_coverage db vr =
     (case execute db CoverageQ (count_exact (filter (\<lambda>a. is_active a = 1) (assets_table db))) of
        Inl e \<Rightarrow> add_error (''Asset coverage error: '' @ str_exn e)
                   (set_check ''asset_coverage'' False (str_exn e) vr)
      | Inr c \<Rightarrow>
          (let active_assets = py_or c 0
           in if active_assets \<ge> MIN_ASSETS_REQUIRED
              then set_check ''asset_coverage'' True
                     (str_nat active_assets @ '' active assets found'') vr
              else add_error (''Insufficient active assets: '' @ str_nat active_assets @ ''/''
                                @ str_nat MIN_ASSETS_REQUIRED)
                     (set_check ''asset_coverage'' False
                        (''Only '' @ str_nat active_assets @ '' active assets'') vr)))"

text \<open>The clock readings of one validation, in the order in which the checks take them.\<close>

record clocks =
  completeness_now :: instant
  freshness_now :: instant
  quality_now :: instant

text \<open>\<open>checks.get(name, {}).get("passed", False)\<close>\<close>

definition check_passed :: "validation_results \<Rightarrow> string \<Rightarrow> bool" where
  "check_passed vr name = (case checks vr name of None \<Rightarrow> False | Some c \<Rightarrow> passed c)"

definition critical_checks :: "string list" where
  "critical_checks = [''completeness'', ''freshness'', ''asset_coverage'']"

definition validate_all ::
  "fmt \<Rightarrow> storage \<Rightarrow> clocks \<Rightarrow> validation_results \<Rightarrow> validation_results" where
  "validate_all F db ck vr =
     (let vr1 = check_data_completeness db (completeness_now ck) vr;
          vr2 = check_data_freshness F db (freshness_now ck) vr1;
          vr3 = check_data_quality F db (quality_now ck) vr2;
          vr4 = check_asset_coverage db vr3;
          all_passed = list_all (check_passed vr4) critical_checks
      in vr4\<lparr>vr_passed := all_passed\<rparr>)"

section \<open>Main orchestrator (scripts/pipelines/daily\_eod\_pipeline.py)\<close>

text \<open>
  What a run of \<open>main\<close> leaves behind: the flag it returns and its two local variables
  \<open>ingestion_stats\<close> and \<open>validation_results\<close>, which are \<open>None\<close> when the run never
  reached the call that assigns them.
\<close>

record main_outcome =
  returned :: bool
  ingestion_stats_of :: "ingestion_stats option"
  validation_results_of :: "validation_results option"

text \<open>
  \<open>main\<close>: the storage is the part of the outside world that \<open>view\<close> shows; the
  validator reads it as ingestion has left it. An exception of \<open>fetch_active_assets\<close>
  ends in the handler of \<open>main\<close>, which returns \<open>False\<close>. The result is the outcome and
  the world after the run.
\<close>

definition main ::
  "'w service \<Rightarrow> ('w \<Rightarrow> storage) \<Rightarrow> fmt \<Rightarrow> instant \<Rightarrow> clocks \<Rightarrow> 'w \<Rightarrow> main_outcome \<times> 'w" where
  "main svc view F now ck w =
     (case fetch_active_assets (view w) of
        Inl e \<Rightarrow>
          (\<lparr>returned = False, ingestion_stats_of = None, validation_results_of = None\<rparr>, w)
      | Inr assets \<Rightarrow>
          if assets = []
          then (\<lparr>returned = False, ingestion_stats_of = None, validation_results_of = None\<rparr>, w)
          else (let (ingestion_stats, w') = ingest_daily_data svc now assets (init_stats, w);
                    validation_results = validate_all F (view w') ck init_validation_results
                in (\<lparr>returned = vr_passed validation_results,
                     ingestion_stats_of = Some ingestion_stats,
                     validation_results_of = Some validation_results\<rparr>, w')))"

section \<open>Pipeline state machine (backend/api/services/pipeline\_service.py)\<close>

datatype PipelineStatus =
    IDLE
  | RUNNING
  | VALIDATING
  | COMPUTING
  | CACHING
  | COMPLETED
  | FAILED
  | PAUSED

record pipeline_metrics =
  start_time :: "instant option"
  end_time :: "instant option"
  tier_1_records_ingested :: nat
  tier_2_records_validated :: nat
  tier_3_pairs_analyzed :: nat
  tier_4_cache_entries :: nat

text \<open>
  The fields \<open>status\<close> and \<open>metrics\<close> of a \<open>PipelineService\<close> object. The list
  \<open>entered\<close> is not in the source: it records every value assigned to \<open>status\<close>, in
  order, so that a property of all intermediate statuses of a run can be stated.
\<close>

record pipeline_state =
  status :: PipelineStatus
  metrics :: pipeline_metrics
  entered :: "PipelineStatus list"

definition init_pipeline_state :: pipeline_state where
  "init_pipeline_state =
     \<lparr>status = IDLE,
      metrics = \<lparr>start_time = None, end_time = None, tier_1_records_ingested = 0,
                 tier_2_records_validated = 0, tier_3_pairs_analyzed = 0,
                 tier_4_cache_entries = 0\<rparr>,
      entered = []\<rparr>"

text \<open>\<open>self.status = s\<close>\<close>

definition set_status :: "PipelineStatus \<Rightarrow> pipeline_state \<Rightarrow> pipeline_state" where
  "set_status s st = st\<lparr>status := s, entered := entered st @ [s]\<rparr>"

text \<open>
  The statements of \<open>run_pipeline\<close> and of its tiers that can raise are their logging
  calls. A site is a place where the logger is called: in \<open>run_pipeline\<close> the first
  message, the announcement of each tier, the message of completion and the message of
  the handler; in a tier the calls before its assignment to the metrics, the call after
  it, and the call of its handler. Which of them raise, and what, is an input.
\<close>

datatype tier = Tier1 | Tier2 | Tier3 | Tier4

datatype site =
    LogStart
  | LogStage tier
  | LogDone
  | LogFailed
  | TierBefore tier
  | TierAfter tier
  | TierHandler tier

type_synonym faults = "site \<Rightarrow> exn option"

text \<open>A statement sequence that stops at the first exception, on the state reached.\<close>

definition and_then ::
  "(exn + 'a) \<times> pipeline_state \<Rightarrow> ('a \<Rightarrow> pipeline_state \<Rightarrow> (exn + 'b) \<times> pipeline_state)
     \<Rightarrow> (exn + 'b) \<times> pipeline_state" where
  "and_then m k = (case m of (Inl e, st) \<Rightarrow> (Inl e, st) | (Inr x, st) \<Rightarrow> k x st)"

text \<open>\<open>self.logger.info(...)\<close> and \<open>self.logger.error(...)\<close> at a site.\<close>

definition log_at :: "faults \<Rightarrow> site \<Rightarrow> pipeline_state \<Rightarrow> (exn + unit) \<times> pipeline_state" where
  "log_at raises l st = (case raises l of Some e \<Rightarrow> (Inl e, st) | None \<Rightarrow> (Inr (), st))"

text \<open>
  The handler of a tier: it logs and returns \<open>False\<close>; an exception of its logging call
  leaves the tier.
\<close>

definition tier_handler :: "faults \<Rightarrow> tier \<Rightarrow> pipeline_state \<Rightarrow> (exn + bool) \<times> pipeline_state" where
  "tier_handler raises t st =
     (case raises (TierHandler t) of Some e \<Rightarrow> (Inl e, st) | None \<Rightarrow> (Inr False, st))"

text \<open>
  The \<open>try\<close> block of a tier: logging, the assignment \<open>upd\<close> to the metrics, logging,
  \<open>return True\<close>.
\<close>

definition tier_body ::
  "faults \<Rightarrow> tier \<Rightarrow> (pipeline_metrics \<Rightarrow> pipeline_metrics) \<Rightarrow> pipeline_state
     \<Rightarrow> (exn + bool) \<times> pipeline_state" where
  "tier_body raises t upd st =
     (case raises (TierBefore t) of
        Some e \<Rightarrow> tier_handler raises t st
      | None \<Rightarrow>
          (let st1 = st\<lparr>metrics := upd (metrics st)\<rparr>
           in case raises (TierAfter t) of
                Some e \<Rightarrow> tier_handler raises t st1
              | None \<Rightarrow> (Inr True, st1)))"

definition tier1_ingestion :: "faults \<Rightarrow> pipeline_state \<Rightarrow> (exn + bool) \<times> pipeline_state" where
  "tier1_ingestion raises st =
     tier_body raises Tier1 (\<lambda>m. m\<lparr>tier_1_records_ingested := 5000\<rparr>) st"

definition tier2_validation :: "faults \<Rightarrow> pipeline_state \<Rightarrow> (exn + bool) \<times> pipeline_state" where
  "tier2_validation raises st =
     tier_body raises Tier2 (\<lambda>m. m\<lparr>tier_2_records_validated := tier_1_records_ingested m\<rparr>) st"

definition tier3_analytics :: "faults \<Rightarrow> pipeline_state \<Rightarrow> (exn + bool) \<times> pipeline_state" where
  "tier3_analytics raises st =
     tier_body raises Tier3 (\<lambda>m. m\<lparr>tier_3_pairs_analyzed := 100\<rparr>) st"

definition tier4_cache :: "faults \<Rightarrow> pipeline_state \<Rightarrow> (exn + bool) \<times> pipeline_state" where
  "tier4_cache raises st =
     tier_body raises Tier4 (\<lambda>m. m\<lparr>tier_4_cache_entries := 500\<rparr>) st"

text \<open>The returned dictionary: its \<open>"status"\<close> and, on failure, its \<open>"error"\<close>.\<close>

datatype run_result = Success | Failure string

text \<open>\<open>if not tier_success: raise Exception(msg)\<close>\<close>

definition require :: "string \<Rightarrow> bool \<Rightarrow> pipeline_state \<Rightarrow> (exn + unit) \<times> pipeline_state" where
  "require msg ok st = (if ok then (Inr (), st) else (Inl (Exception msg), st))"

text \<open>
  The \<open>try\<close> block of \<open>run_pipeline\<close>, statement by statement, in five pieces: the
  statements run while the status is \<open>RUNNING\<close>, and those from each later assignment to
  the status up to the next one. \<open>t1\<close> is the reading of \<open>datetime.utcnow()\<close> after
  \<open>COMPLETED\<close>.
\<close>

definition while_running :: "faults \<Rightarrow> pipeline_state \<Rightarrow> (exn + unit) \<times> pipeline_state" where
  "while_running raises st =
     and_then (log_at raises LogStart st) (\<lambda>_ st.
     and_then (log_at raises (LogStage Tier1) st) (\<lambda>_ st.
     and_then (tier1_ingestion raises st) (\<lambda>tier1_success st.
     and_then (require ''Tier 1 ingestion failed'' tier1_success st) (\<lambda>_ st.
     log_at raises (LogStage Tier2) st))))"

definition while_validating :: "faults \<Rightarrow> pipeline_state \<Rightarrow> (exn + unit) \<times> pipeline_state" where
  "while_validating raises st =
     and_then (tier2_validation raises (set_status VALIDATING st)) (\<lambda>tier2_success st.
     and_then (require ''Tier 2 validation failed'' tier2_success st) (\<lambda>_ st.
     log_at raises (LogStage Tier3) st))"

definition while_computing :: "faults \<Rightarrow> pipeline_state \<Rightarrow> (exn + unit) \<times> pipeline_state" where
  "while_computing raises st =
     and_then (tier3_analytics raises (set_status COMPUTING st)) (\<lambda>tier3_success st.
     and_then (require ''Tier 3 analytics failed'' tier3_success st) (\<lambda>_ st.
     log_at raises (LogStage Tier4) st))"

definition while_caching :: "faults \<Rightarrow> pipeline_state \<Rightarrow> (exn + unit) \<times> pipeline_state" where
  "while_caching raises st =
     and_then (tier4_cache raises (set_status CACHING st)) (\<lambda>tier4_success st.
     require ''Tier 4 caching failed'' tier4_success st)"

definition while_completed ::
  "faults \<Rightarrow> instant \<Rightarrow> pipeline_state \<Rightarrow> (exn + run_result) \<times> pipeline_state" where
  "while_completed raises t1 st =
     (let s1 = set_status COMPLETED st;
          s2 = s1\<lparr>metrics := (metrics s1)\<lparr>end_time := Some t1\<rparr>\<rparr>
      in and_then (log_at raises LogDone s2) (\<lambda>_ st. (Inr Success, st)))"

definition run_pipeline_try ::
  "faults \<Rightarrow> instant \<Rightarrow> pipeline_state \<Rightarrow> (exn + run_result) \<times> pipeline_state" where
  "run_pipeline_try raises t1 st =
     and_then (while_running raises st) (\<lambda>_ st.
     and_then (while_validating raises st) (\<lambda>_ st.
     and_then (while_computing raises st) (\<lambda>_ st.
     and_then (while_caching raises st) (\<lambda>_ st.
     while_completed raises t1 st))))"

text \<open>
  \<open>run_pipeline\<close>: \<open>t0\<close> is the reading of the clock at the start and \<open>t2\<close> the one
  of the handler. The handler sets \<open>FAILED\<close> and returns the failure with \<open>str(e)\<close>; an
  exception of its own logging call leaves \<open>run_pipeline\<close>.
\<close>

definition run_pipeline ::
  "faults \<Rightarrow> instant \<Rightarrow> instant \<Rightarrow> instant \<Rightarrow> pipeline_state
     \<Rightarrow> (exn + run_result) \<times> pipeline_state" where
  "run_pipeline raises t0 t1 t2 st =
     (let s0 = set_status RUNNING st;
          s1 = s0\<lparr>metrics := (metrics s0)\<lparr>start_time := Some t0\<rparr>\<rparr>
      in case run_pipeline_try raises t1 s1 of
           (Inr res, s) \<Rightarrow> (Inr res, s)
         | (Inl e, s) \<Rightarrow>
             (let s3 = set_status FAILED s;
                  s4 = s3\<lparr>metrics := (metrics s3)\<lparr>end_time := Some t2\<rparr>\<rparr>
              in case raises LogFailed of
                   Some e' \<Rightarrow> (Inl e', s4)
                 | None \<Rightarrow> (Inr (Failure (str_exn e)), s4)))"

text \<open>
  The faults that end a run while the status has a given value: the tier of that stage
  not returning \<open>True\<close>, or a logging call of \<open>run_pipeline\<close> raising before the next
  assignment to the status.
\<close>

definition raises_at :: "faults \<Rightarrow> site \<Rightarrow> bool" where
  "raises_at raises l = (case raises l of None \<Rightarrow> False | Some e \<Rightarrow> True)"

definition tier_fails :: "faults \<Rightarrow> tier \<Rightarrow> bool" where
  "tier_fails raises t = (raises_at raises (TierBefore t) \<or> raises_at raises (TierAfter t))"

fun fails_while :: "faults \<Rightarrow> PipelineStatus \<Rightarrow> bool" where
  "fails_while raises RUNNING =
     (raises_at raises LogStart \<or> raises_at raises (LogStage Tier1) \<or> tier_fails raises Tier1 \<or>
      raises_at raises (LogStage Tier2))"
| "fails_while raises VALIDATING =
     (tier_fails raises Tier2 \<or> raises_at raises (LogStage Tier3))"
| "fails_while raises COMPUTING =
     (tier_fails raises Tier3 \<or> raises_at raises (LogStage Tier4))"
| "fails_while raises CACHING = tier_fails raises Tier4"
| "fails_while raises COMPLETED = raises_at raises LogDone"
| "fails_while raises _ = False"

section \<open>Market data client (backend/clients/yfinance\_client.py)\<close>

text \<open>
  The rate limiter of \<open>YFinanceClient\<close>. Readings of the clock of the event loop
  (\<open>asyncio.get_event_loop().time()\<close>, in seconds) and durations are rationals. Of the
  configuration only the two fields that the limiter reads are kept; the data that a
  download returns is not modelled.
\<close>

record YFinanceConfig =
  delay_between_requests :: rat
  respect_server :: bool

record YFinanceClient =
  config :: YFinanceConfig
  last_request_time :: rat

definition YFinanceClient_init :: "YFinanceConfig \<Rightarrow> YFinanceClient" where
  "YFinanceClient_init cfg = \<lparr>config = cfg, last_request_time = 0\<rparr>"

text \<open>
  The limiter stands before each download, the same statements in
  \<open>fetch_historical_data\<close> and in the loop of \<open>fetch_batch_multi\<close>. It is a coroutine
  with one point of suspension, \<open>await asyncio.sleep(sleep_duration)\<close>, hence two
  pieces that each run without interruption. The first reads the clock
  (\<open>current_time\<close>) and either asks for a sleep, with nothing stamped yet, or stamps
  \<open>last_request_time\<close> with a second reading of the clock at once. The second is what
  runs after the sleep: the stamp.
\<close>

definition limiter_enter :: "YFinanceClient \<Rightarrow> rat \<Rightarrow> rat \<Rightarrow> rat option \<times> YFinanceClient" where
  "limiter_enter c current_time stamp =
     (if respect_server (config c)
      then (let time_since_last = current_time - last_request_time c
            in if time_since_last < delay_between_requests (config c)
               then (Some (delay_between_requests (config c) - time_since_last), c)
               else (None, c\<lparr>last_request_time := stamp\<rparr>))
      else (None, c))"

definition limiter_resume :: "YFinanceClient \<Rightarrow> rat \<Rightarrow> YFinanceClient" where
  "limiter_resume c stamp =
     (if respect_server (config c) then c\<lparr>last_request_time := stamp\<rparr> else c)"

text \<open>
  The limiter run without another coroutine in between: \<open>r\<close> holds the reading taken
  for \<open>current_time\<close> and the reading taken for the stamp. The result is the sleep asked
  for, if any, and the client after the stamp.
\<close>

definition rate_limit :: "YFinanceClient \<Rightarrow> rat \<times> rat \<Rightarrow> rat option \<times> YFinanceClient" where
  "rate_limit c r =
     (case limiter_enter c (fst r) (snd r) of
        (Some d, c1) \<Rightarrow> (Some d, limiter_resume c1 (snd r))
      | (None, c1) \<Rightarrow> (None, c1))"

text \<open>
  What the two readings of a limiter owe to the event loop: the clock does not run
  backwards, and a sleep lasts at least as long as asked.
\<close>

definition honoured :: "YFinanceClient \<Rightarrow> rat \<times> rat \<Rightarrow> bool" where
  "honoured c r =
     (fst r \<le> snd r \<and>
      (case fst (rate_limit c r) of None \<Rightarrow> True | Some d \<Rightarrow> fst r + d \<le> snd r))"

text \<open>
  \<open>fetch_historical_data\<close>: the limiter, then one download. A request is written down
  as the value of \<open>last_request_time\<close> when its download starts, the client's own record
  of the time of the request. The result is the client after the call and the requests
  issued.
\<close>

definition fetch_historical_data :: "YFinanceClient \<Rightarrow> rat \<times> rat \<Rightarrow> YFinanceClient \<times> rat list" where
  "fetch_historical_data c r =
     (let c1 = snd (rate_limit c r) in (c1, [last_request_time c1]))"

text \<open>
  The loop of \<open>fetch_batch_multi\<close> over the groups: for the group of index \<open>k\<close> the
  limiter with the readings \<open>rd k\<close>, then one download.
\<close>

fun fetch_groups ::
  "YFinanceClient \<Rightarrow> string list list \<Rightarrow> nat \<Rightarrow> (nat \<Rightarrow> rat \<times> rat) \<Rightarrow> YFinanceClient \<times> rat list" where
  "fetch_groups c [] k rd = (c, [])"
| "fetch_groups c (g # gs) k rd =
     (let c1 = snd (rate_limit c (rd k));
          (c2, ts) = fetch_groups c1 gs (Suc k) rd
      in (c2, last_request_time c1 # ts))"

text \<open>
  \<open>fetch_batch_multi\<close>: the groups are the slices of \<open>chunk(symbols, group_size)\<close>. A
  step of zero makes \<open>range\<close> raise \<open>ValueError\<close> before the first group; a negative step
  gives no group.
\<close>

definition fetch_batch_multi ::
  "YFinanceClient \<Rightarrow> string list \<Rightarrow> int \<Rightarrow> (nat \<Rightarrow> rat \<times> rat)
     \<Rightarrow> exn + YFinanceClient \<times> rat list" where
  "fetch_batch_multi c syms gsize rd =
     (if gsize = 0 then Inl (ValueError ''range() arg 3 must not be zero'')
      else if gsize < 0 then Inr (c, [])
      else Inr (fetch_groups c (chunks (nat gsize) syms) 0 rd))"

text \<open>
  Calls on one client that are awaited one after the other: each call with the readings
  of its limiters. A call that raises has issued no request and left the client as it
  was.
\<close>

datatype call =
    Historical "rat \<times> rat"
  | BatchMulti "string list" int "nat \<Rightarrow> rat \<times> rat"

fun perform :: "YFinanceClient \<Rightarrow> call \<Rightarrow> YFinanceClient \<times> rat list" where
  "perform c (Historical r) = fetch_historical_data c r"
| "perform c (BatchMulti syms gsize rd) =
     (case fetch_batch_multi c syms gsize rd of Inl e \<Rightarrow> (c, []) | Inr x \<Rightarrow> x)"

fun session :: "YFinanceClient \<Rightarrow> call list \<Rightarrow> YFinanceClient \<times> rat list" where
  "session c [] = (c, [])"
| "session c (x # xs) =
     (let (c1, ts) = perform c x;
          (c2, ts') = session c1 xs
      in (c2, ts @ ts'))"

text \<open>The readings of every limiter of a loop, of a call, of a session are honoured.\<close>

fun honoured_groups ::
  "YFinanceClient \<Rightarrow> string list list \<Rightarrow> nat \<Rightarrow> (nat \<Rightarrow> rat \<times> rat) \<Rightarrow> bool" where
  "honoured_groups c [] k rd = True"
| "honoured_groups c (g # gs) k rd =
     (honoured c (rd k) \<and> honoured_groups (snd (rate_limit c (rd k))) gs (Suc k) rd)"

fun honoured_call :: "YFinanceClient \<Rightarrow> call \<Rightarrow> bool" where
  "honoured_call c (Historical r) = honoured c r"
| "honoured_call c (BatchMulti syms gsize rd) =
     (if gsize \<le> 0 then True
      else honoured_groups c (chunks (nat gsize) syms) 0 rd)"

fun honoured_session :: "YFinanceClient \<Rightarrow> call list \<Rightarrow> bool" where
  "honoured_session c [] = True"
| "honoured_session c (x # xs) =
     (honoured_call c x \<and> honoured_session (fst (perform c x)) xs)"

text \<open>Consecutive times are at least \<open>d\<close> apart.\<close>

fun spaced :: "rat \<Rightarrow> rat list \<Rightarrow> bool" where
  "spaced d (x # y # zs) = (x + d \<le> y \<and> spaced d (y # zs))"
| "spaced d zs = True"

text \<open>
  Coroutines on one client taking turns, as the event loop runs them: \<open>Enter i t t'\<close>
  runs the first piece of the limiter of task \<open>i\<close> with the readings \<open>t\<close> and \<open>t'\<close>,
  \<open>Resume i t\<close> runs its second piece, after its sleep, with the reading \<open>t\<close>. The state
  holds the client, the tasks that sleep (with the time at which each went to sleep
  and the duration asked for), the requests issued, and whether every sleep so far
  has lasted as long as asked.
\<close>

datatype event = Enter nat rat rat | Resume nat rat

record loop_state =
  client :: YFinanceClient
  sleeping :: "nat \<rightharpoonup> rat \<times> rat"
  requests :: "rat list"
  sleeps_honoured :: bool

definition loop_init :: "YFinanceClient \<Rightarrow> loop_state" where
  "loop_init c = \<lparr>client = c, sleeping = Map.empty, requests = [], sleeps_honoured = True\<rparr>"

fun step :: "loop_state \<Rightarrow> event \<Rightarrow> loop_state" where
  "step s (Enter i t t') =
     (case limiter_enter (client s) t t' of
        (Some d, c1) \<Rightarrow> s\<lparr>client := c1, sleeping := (sleeping s)(i \<mapsto> (t, d))\<rparr>
      | (None, c1) \<Rightarrow> s\<lparr>client := c1, requests := requests s @ [last_request_time c1]\<rparr>)"
| "step s (Resume i t) =
     (case sleeping s i of
        None \<Rightarrow> s
      | Some (t0, d) \<Rightarrow>
          (let c1 = limiter_resume (client s) t
           in s\<lparr>client := c1,
                sleeping := (sleeping s)(i := None),
                requests := requests s @ [last_request_time c1],
                sleeps_honoured := (sleeps_honoured s \<and> t0 + d \<le> t)\<rparr>))"

definition run_events :: "loop_state \<Rightarrow> event list \<Rightarrow> loop_state" where
  "run_events s es = foldl step s es"

section \<open>Concrete inputs\<close>

text \<open>
  Twelve assets, hence two batches and three groups; a service whose provider times out
  on the group holding \<open>F\<close> and stores two records for every other symbol, counting its
  calls.
\<close>

definition mk_asset :: "string \<Rightarrow> asset" where
  "mk_asset s = \<lparr>symbol = s, yfinance_ticker = None\<rparr>"

definition demo_assets :: "asset list" where
  "demo_assets =
     map mk_asset [''A'', ''B'', ''C'', ''D'', ''E'', ''F'', ''G'', ''H'', ''I'', ''J'', ''K'', ''L'']"

definition demo_fetch :: "nat fetch_method" where
  "demo_fetch req n =
     (if ''F'' \<in> set (symbols req) then (Inl (Exception ''provider timeout''), n + 1)
      else (Inr [''results'' \<mapsto>
                   (\<lambda>s. Some (ResDict \<lparr>res_status = Some ''success'',
                                          records_stored = Some (PyInt 2)\<rparr>))],
            n + 1))"

definition demo_service :: "nat service" where
  "demo_service = [''run_multi_fetch_store'' \<mapsto> demo_fetch]"

text \<open>A service that reports success for every symbol with a null record count.\<close>

definition null_records_fetch :: "nat fetch_method" where
  "null_records_fetch req n =
     (Inr [''results'' \<mapsto>
             (\<lambda>s. Some (ResDict \<lparr>res_status = Some ''success'',
                                    records_stored = Some PyNone\<rparr>))],
      n + 1)"

definition null_records_service :: "nat service" where
  "null_records_service = [''run_multi_fetch_store'' \<mapsto> null_records_fetch]"

definition demo_group1 :: "asset list" where
  "demo_group1 = map mk_asset [''A'', ''B'', ''C'', ''D'', ''E'']"

definition demo_group2 :: "asset list" where
  "demo_group2 = map mk_asset [''F'', ''G'', ''H'', ''I'', ''J'']"

definition demo_group3 :: "asset list" where
  "demo_group3 = map mk_asset [''K'', ''L'']"

text \<open>Storage states and a formatter for the checks.\<close>

definition demo_fmt :: fmt where
  "demo_fmt = \<lparr>fixed1 = (\<lambda>x. ''(hours)''), percent2 = (\<lambda>x. ''(percent)'')\<rparr>"

definition price :: "instant \<Rightarrow> rat option \<Rightarrow> price_row" where
  "price t c = \<lparr>asset_id = 1, timestamp = t, close = c\<rparr>"

definition no_fault :: "query \<Rightarrow> exn option" where
  "no_fault q = None"

definition fault_at :: "query \<Rightarrow> exn \<Rightarrow> query \<Rightarrow> exn option" where
  "fault_at q0 e q = (if q = q0 then Some e else None)"

text \<open>Two rows within the last week, one of them without a close price.\<close>

definition half_null_db :: storage where
  "half_null_db =
     \<lparr>price_history = [price 0 None, price 1 (Some 10)], assets_table = [], fault = no_fault\<rparr>"

text \<open>One row without a close price, thirty days old, and one complete row of today.\<close>

definition stale_null_db :: storage where
  "stale_null_db =
     \<lparr>price_history = [price (- days 30) None, price 0 (Some 100)], assets_table = [],
      fault = no_fault\<rparr>"

definition empty_db :: storage where
  "empty_db = \<lparr>price_history = [], assets_table = [], fault = no_fault\<rparr>"

text \<open>Rows whose latest timestamp is the instant 0.\<close>

definition epoch_db :: storage where
  "epoch_db =
     \<lparr>price_history = [price (- days 1) (Some 9), price 0 (Some 10)], assets_table = [],
      fault = no_fault\<rparr>"

text \<open>One asset, not active; and the same asset, active.\<close>

definition inactive_db :: storage where
  "inactive_db =
     \<lparr>price_history = [],
      assets_table = [\<lparr>symbol = ''A'', yfinance_ticker = None, is_active = 0\<rparr>],
      fault = no_fault\<rparr>"

definition one_active_db :: storage where
  "one_active_db =
     \<lparr>price_history = [],
      assets_table = [\<lparr>symbol = ''A'', yfinance_ticker = None, is_active = 1\<rparr>],
      fault = no_fault\<rparr>"

definition demo_clocks :: clocks where
  "demo_clocks = \<lparr>completeness_now = 0, freshness_now = 0, quality_now = 0\<rparr>"

text \<open>Fault patterns of the logger: none, and a single site raising.\<close>

definition no_faults :: faults where
  "no_faults l = None"

definition only_at :: "site \<Rightarrow> faults" where
  "only_at l0 l = (if l = l0 then Some (Exception ''logging failed'') else None)"

text \<open>
  A client with a delay of sixty seconds; one call for a single symbol and one for seven
  symbols in groups of five, awaited in turn; and three single calls of which the last
  two are in flight together.
\<close>

definition demo_config :: YFinanceConfig where
  "demo_config = \<lparr>delay_between_requests = 60, respect_server = True\<rparr>"

definition demo_readings :: "nat \<Rightarrow> rat \<times> rat" where
  "demo_readings k = (if k = 0 then (1010, 1060) else (1061, 1120))"

definition demo_calls :: "call list" where
  "demo_calls =
     [Historical (1000, 1000),
      BatchMulti [''A'', ''B'', ''C'', ''D'', ''E'', ''F'', ''G''] 5 demo_readings]"

definition overlapping_events :: "event list" where
  "overlapping_events =
     [Enter 0 90 90, Enter 1 100 100, Enter 2 101 101, Resume 1 150, Resume 2 151]"

section \<open>Properties of ingestion\<close>

lemma chunks_Nil [simp]: "chunks n [] = []"
  by (simp add: chunks.simps)

lemma chunks_Cons: "0 < n \<Longrightarrow> xs \<noteq> [] \<Longrightarrow> chunks n xs = take n xs # chunks n (drop n xs)"
  by (subst chunks.simps) simp

lemma concat_chunks: "0 < n \<Longrightarrow> concat (chunks n xs) = xs"
proof (induction n xs rule: chunks.induct)
  case (1 n xs)
  show ?case
  proof (cases "xs = []")
    case True
    then show ?thesis by simp
  next
    case False
    with 1 show ?thesis by (simp add: chunks_Cons)
  qed
qed

lemma chunks_nonempty: "g \<in> set (chunks n xs) \<Longrightarrow> g \<noteq> []"
proof (induction n xs rule: chunks.induct)
  case (1 n xs)
  show ?case
  proof (cases "n = 0 \<or> xs = []")
    case True
    with 1(2) show ?thesis by (auto simp: chunks.simps)
  next
    case False
    with 1 show ?thesis by (auto simp: chunks_Cons)
  qed
qed

lemma count_symbol_total: "total_assets (fst (count_symbol res_map st sy)) = total_assets st"
  by (simp add: count_symbol_def Let_def split: option.splits res_value.splits py_value.splits)

lemma count_symbols_total:
  "total_assets (fst (count_symbols res_map st syms)) = total_assets st"
proof (induction syms arbitrary: st)
  case Nil
  then show ?case by simp
next
  case (Cons sy syms)
  show ?case
  proof (cases "count_symbol res_map st sy")
    case (Pair st1 r)
    with count_symbol_total [of res_map st sy] have t: "total_assets st1 = total_assets st"
      by simp
    show ?thesis
    proof (cases r)
      case None
      with Pair Cons.IH [of st1] t show ?thesis by simp
    next
      case (Some e)
      with Pair t show ?thesis by simp
    qed
  qed
qed

lemma process_group_total:
  "total_assets (fst (process_group svc now sw grp)) = total_assets (fst sw)"
proof -
  have "total_assets (fst (count_symbols res_map (fst sw) syms)) = total_assets (fst sw)"
    for res_map syms
    by (rule count_symbols_total)
  then show ?thesis
    by (auto simp add: process_group_def Let_def
        split: prod.splits sum.splits option.splits)
      (metis fst_conv)+
qed

lemma foldl_process_group_total:
  "total_assets (fst (foldl (process_group svc now) sw gs)) = total_assets (fst sw)"
  by (induction gs arbitrary: sw) (simp_all add: process_group_total)

lemma process_batch_total:
  "total_assets (fst (process_batch svc now sw batch)) = total_assets (fst sw)"
  by (simp add: process_batch_def foldl_process_group_total)

lemma foldl_process_batch_total:
  "total_assets (fst (foldl (process_batch svc now) sw bs)) = total_assets (fst sw)"
  by (induction bs arbitrary: sw) (simp_all add: process_batch_total)

text \<open>Every call sets \<open>total_assets\<close> to the number of assets it is given.\<close>

lemma ingest_daily_data_total:
  "total_assets (fst (ingest_daily_data svc now assets sw)) = length assets"
  by (simp add: ingest_daily_data_def foldl_process_batch_total)

lemma foldl_concat_groups: "foldl f s (concat xss) = foldl (foldl f) s xss"
  by (induction xss arbitrary: s) simp_all

text \<open>The nested loops visit the groups of \<open>groups_of\<close> one after the other.\<close>

lemma ingest_as_groups:
  "ingest_daily_data svc now assets sw =
     foldl (process_group svc now) ((fst sw)\<lparr>total_assets := length assets\<rparr>, snd sw)
       (groups_of assets)"
proof -
  have "foldl (process_batch svc now) s bs =
          foldl (process_group svc now) s (concat (map (chunks GROUP_SIZE) bs))" for s bs
    by (induction bs arbitrary: s) (simp_all add: process_batch_def)
  then show ?thesis
    by (simp add: ingest_daily_data_def groups_of_def)
qed

lemma concat_groups_of: "concat (groups_of assets) = assets"
proof -
  have "concat (concat (map (chunks GROUP_SIZE) bs)) = concat bs" for bs :: "asset list list"
    by (induction bs) (simp_all add: concat_chunks GROUP_SIZE_def)
  then show ?thesis
    by (simp add: groups_of_def concat_chunks BATCH_SIZE_def)
qed

lemma process_group_raises:
  "call_run_multi_fetch_store svc (group_request now grp) w = (Inl e, w') \<Longrightarrow>
   process_group svc now (st, w) grp = (st\<lparr>failed := failed st + length grp\<rparr>, w')"
  by (simp add: process_group_def)

lemma PipelineService_no_method:
  "(PipelineService :: 'w service) ''run_multi_fetch_store'' = None"
  by (simp add: PipelineService_def PipelineService_attributes_def)

lemma process_group_PipelineService:
  "process_group PipelineService now (st, w) grp = (st\<lparr>failed := failed st + length grp\<rparr>, w)"
  by (simp add: process_group_def call_run_multi_fetch_store_def PipelineService_no_method)

lemma foldl_process_group_PipelineService:
  "foldl (process_group PipelineService now) (st, w) gs =
     (st\<lparr>failed := failed st + length (concat gs)\<rparr>, w)"
  by (induction gs arbitrary: st) (simp_all add: process_group_PipelineService)

lemma demo_groups: "groups_of demo_assets = [demo_group1] @ demo_group2 # [demo_group3]"
  by (simp add: groups_of_def demo_assets_def demo_group1_def demo_group2_def demo_group3_def
      chunks_Cons BATCH_SIZE_def GROUP_SIZE_def)

lemmas demo_eval =
  process_group_def call_run_multi_fetch_store_def demo_service_def demo_fetch_def
  group_request_def group_symbol_def mk_asset_def count_symbol_def init_stats_def
  demo_assets_def demo_group1_def demo_group2_def demo_group3_def

lemma ingest_PipelineService:
  "ingest_daily_data PipelineService now assets (st, w) =
     (st\<lparr>total_assets := length assets, failed := failed st + length assets\<rparr>, w)"
  by (simp add: ingest_as_groups foldl_process_group_PipelineService concat_groups_of)

text \<open>
  C1. The stats returned by \<open>ingest_daily_data\<close> are to satisfy
  \<open>successful + failed + skipped = total_assets\<close>, the length of the asset list, in every
  run. The code breaks this in two ways. It assigns \<open>total_assets\<close> at the start of a run
  but never resets the three counters, so a second run over the same twelve assets on
  the same orchestrator returns \<open>failed = 24\<close> against \<open>total_assets = 12\<close>. And the
  handler of a group adds the size of the whole group to \<open>failed\<close> also when the
  exception comes from the loop over the symbols, after symbols have been counted: with
  one asset whose summary entry is a success with a null record count, a first run
  returns \<open>successful = 1\<close> and \<open>failed = 1\<close> against \<open>total_assets = 1\<close>.
\<close>

theorem ingest_stats_overcount:
  "ingest_daily_data PipelineService 0 demo_assets
     (ingest_daily_data PipelineService 0 demo_assets (init_stats, ())) =
     (\<lparr>total_assets = 12, successful = 0, failed = 24, skipped = 0, total_records = 0\<rparr>, ()) \<and>
   ingest_daily_data null_records_service 0 [mk_asset ''A''] (init_stats, 0) =
     (\<lparr>total_assets = 1, successful = 1, failed = 1, skipped = 0, total_records = 0\<rparr>, 1)"
proof -
  have "ingest_daily_data PipelineService 0 demo_assets (init_stats, ()) =
      (\<lparr>total_assets = 12, successful = 0, failed = 12, skipped = 0, total_records = 0\<rparr>, ())"
    by (simp add: ingest_PipelineService init_stats_def demo_assets_def)
  then have again: "ingest_daily_data PipelineService 0 demo_assets
      (ingest_daily_data PipelineService 0 demo_assets (init_stats, ())) =
      (\<lparr>total_assets = 12, successful = 0, failed = 24, skipped = 0, total_records = 0\<rparr>, ())"
    by (simp add: ingest_PipelineService demo_assets_def)
  have "groups_of [mk_asset ''A''] = [[mk_asset ''A'']]"
    by (simp add: groups_of_def chunks_Cons BATCH_SIZE_def GROUP_SIZE_def)
  then have null: "ingest_daily_data null_records_service 0 [mk_asset ''A''] (init_stats, 0) =
      (\<lparr>total_assets = 1, successful = 1, failed = 1, skipped = 0, total_records = 0\<rparr>, 1)"
    by (simp add: ingest_as_groups process_group_def call_run_multi_fetch_store_def
        null_records_service_def null_records_fetch_def group_request_def group_symbol_def
        mk_asset_def count_symbol_def init_stats_def)
  from again null show ?thesis by simp
qed



text \<open>
  C4. When the call for a group raises, the stats after that group are the stats before
  it with \<open>failed\<close> increased by exactly the size of the group and nothing else changed,
  and the run goes on with the groups that follow: the result of \<open>ingest_daily_data\<close> is
  the result of processing the remaining groups from there. The exception reaches no
  caller: \<open>ingest_daily_data\<close> returns stats.
\<close>

theorem group_failure_isolated:
  assumes "groups_of assets = pre @ grp # post"
    and "foldl (process_group svc now) (st0\<lparr>total_assets := length assets\<rparr>, w0) pre = (st, w)"
    and "call_run_multi_fetch_store svc (group_request now grp) w = (Inl e, w')"
  shows "process_group svc now (st, w) grp = (st\<lparr>failed := failed st + length grp\<rparr>, w') \<and>
         ingest_daily_data svc now assets (st0, w0) =
           foldl (process_group svc now) (st\<lparr>failed := failed st + length grp\<rparr>, w') post"
  using assms by (simp add: ingest_as_groups process_group_raises)

theorem group_failure_isolated_witness:
  "groups_of demo_assets = [demo_group1] @ demo_group2 # [demo_group3] \<and>
   foldl (process_group demo_service 0)
     (init_stats\<lparr>total_assets := length demo_assets\<rparr>, 0) [demo_group1] =
     (\<lparr>total_assets = 12, successful = 5, failed = 0, skipped = 0, total_records = 10\<rparr>, 1) \<and>
   call_run_multi_fetch_store demo_service (group_request 0 demo_group2) 1 =
     (Inl (Exception ''provider timeout''), 2) \<and>
   process_group demo_service 0
     (\<lparr>total_assets = 12, successful = 5, failed = 0, skipped = 0, total_records = 10\<rparr>, 1)
     demo_group2 =
     (\<lparr>total_assets = 12, successful = 5, failed = 5, skipped = 0, total_records = 10\<rparr>, 2) \<and>
   ingest_daily_data demo_service 0 demo_assets (init_stats, 0) =
     (\<lparr>total_assets = 12, successful = 7, failed = 5, skipped = 0, total_records = 14\<rparr>, 3)"
proof -
  have h1: "groups_of demo_assets = [demo_group1] @ demo_group2 # [demo_group3]"
    by (rule demo_groups)
  have h2: "foldl (process_group demo_service 0)
      (init_stats\<lparr>total_assets := length demo_assets\<rparr>, 0) [demo_group1] =
      (\<lparr>total_assets = 12, successful = 5, failed = 0, skipped = 0, total_records = 10\<rparr>, 1)"
    by (simp add: demo_eval)
  have h3: "call_run_multi_fetch_store demo_service (group_request 0 demo_group2) 1 =
      (Inl (Exception ''provider timeout''), 2)"
    by (simp add: demo_eval)
  have h4: "foldl (process_group demo_service 0)
      (\<lparr>total_assets = 12, successful = 5, failed = 5, skipped = 0, total_records = 10\<rparr>, 2)
      [demo_group3] =
      (\<lparr>total_assets = 12, successful = 7, failed = 5, skipped = 0, total_records = 14\<rparr>, 3)"
    by (simp add: demo_eval)
  have h5: "length demo_group2 = 5"
    by (simp add: demo_group2_def)
  show ?thesis
    using h1 h2 h3 h4 h5 group_failure_isolated [OF h1 h2 h3]
    by simp
qed

section \<open>Properties of validation\<close>

lemmas check_defs = set_check_def add_error_def add_warning_def check_passed_def execute_def

text \<open>A check leaves the entries of the other checks as they are.\<close>

lemma completeness_kept:
  "check_passed (check_data_freshness F db now vr) ''completeness'' = check_passed vr ''completeness''"
  "check_passed (check_data_quality F db now vr) ''completeness'' = check_passed vr ''completeness''"
  "check_passed (check_asset_coverage db vr) ''completeness'' = check_passed vr ''completeness''"
  by (simp_all add: check_data_freshness_def check_data_quality_def check_asset_coverage_def
      check_defs Let_def split: sum.splits list.splits)

lemma freshness_kept:
  "check_passed (check_data_quality F db now vr) ''freshness'' = check_passed vr ''freshness''"
  "check_passed (check_asset_coverage db vr) ''freshness'' = check_passed vr ''freshness''"
  by (simp_all add: check_data_quality_def check_asset_coverage_def
      check_defs Let_def split: sum.splits)

text \<open>The outcome of each critical check does not depend on the results it starts from.\<close>

lemma completeness_indep:
  "check_passed (check_data_completeness db now vr) ''completeness'' =
   check_passed (check_data_completeness db now vr') ''completeness''"
  by (simp add: check_data_completeness_def check_defs Let_def split: sum.splits)

lemma freshness_indep:
  "check_passed (check_data_freshness F db now vr) ''freshness'' =
   check_passed (check_data_freshness F db now vr') ''freshness''"
  by (simp add: check_data_freshness_def check_defs Let_def split: sum.splits list.splits)

lemma coverage_indep:
  "check_passed (check_asset_coverage db vr) ''asset_coverage'' =
   check_passed (check_asset_coverage db vr') ''asset_coverage''"
  by (simp add: check_asset_coverage_def check_defs Let_def split: sum.splits)

lemma check_passed_vr_passed_update [simp]:
  "check_passed (vr\<lparr>vr_passed := b\<rparr>) name = check_passed vr name"
  by (simp add: check_passed_def)

lemma vr_passed_validate_all:
  "vr_passed (validate_all F db ck vr) =
     (check_passed (validate_all F db ck vr) ''completeness'' \<and>
      check_passed (validate_all F db ck vr) ''freshness'' \<and>
      check_passed (validate_all F db ck vr) ''asset_coverage'')"
  by (simp add: validate_all_def Let_def critical_checks_def)

lemma validate_all_completeness:
  "check_passed (validate_all F db ck vr) ''completeness'' =
   check_passed (check_data_completeness db (completeness_now ck) vr1) ''completeness''"
proof -
  have "check_passed (validate_all F db ck vr) ''completeness'' =
        check_passed (check_data_completeness db (completeness_now ck) vr) ''completeness''"
    by (simp add: validate_all_def Let_def completeness_kept)
  also have "\<dots> = check_passed (check_data_completeness db (completeness_now ck) vr1) ''completeness''"
    by (rule completeness_indep)
  finally show ?thesis .
qed

lemma validate_all_freshness:
  "check_passed (validate_all F db ck vr) ''freshness'' =
   check_passed (check_data_freshness F db (freshness_now ck) vr2) ''freshness''"
proof -
  have "check_passed (validate_all F db ck vr) ''freshness'' =
        check_passed (check_data_freshness F db (freshness_now ck)
          (check_data_completeness db (completeness_now ck) vr)) ''freshness''"
    by (simp add: validate_all_def Let_def freshness_kept)
  also have "\<dots> = check_passed (check_data_freshness F db (freshness_now ck) vr2) ''freshness''"
    by (rule freshness_indep)
  finally show ?thesis .
qed

lemma validate_all_coverage:
  "check_passed (validate_all F db ck vr) ''asset_coverage'' =
   check_passed (check_asset_coverage db vr3) ''asset_coverage''"
proof -
  have "check_passed (validate_all F db ck vr) ''asset_coverage'' =
        check_passed (check_asset_coverage db
          (check_data_quality F db (quality_now ck)
            (check_data_freshness F db (freshness_now ck)
              (check_data_completeness db (completeness_now ck) vr)))) ''asset_coverage''"
    by (simp add: validate_all_def Let_def)
  also have "\<dots> = check_passed (check_asset_coverage db vr3) ''asset_coverage''"
    by (rule coverage_indep)
  finally show ?thesis .
qed

lemma aggregate_ignores_quality:
  "list_all (check_passed (vr\<lparr>checks := (checks vr)(''quality'' \<mapsto> q)\<rparr>)) critical_checks =
   list_all (check_passed vr) critical_checks"
  by (simp add: critical_checks_def check_passed_def)

lemmas db_eval = half_null_db_def stale_null_db_def empty_db_def epoch_db_def inactive_db_def
  price_def no_fault_def fault_at_def demo_fmt_def days_def

text \<open>
  C3. \<open>validate_all\<close> sets the aggregate to the conjunction of the \<open>passed\<close> flags of
  \<open>completeness\<close>, \<open>freshness\<close> and \<open>asset_coverage\<close>, for every storage state, every
  clock and every earlier content of the results. The quality check has no effect on it:
  the aggregate equals the conjunction of the outcomes of the three critical checks run on
  their own, and computing it from the final checks with any other entry \<open>q\<close> in place of
  the quality entry gives the same value.
\<close>

theorem validate_all_aggregate:
  "(vr_passed (validate_all F db ck vr) \<longleftrightarrow>
      check_passed (validate_all F db ck vr) ''completeness'' \<and>
      check_passed (validate_all F db ck vr) ''freshness'' \<and>
      check_passed (validate_all F db ck vr) ''asset_coverage'') \<and>
   (vr_passed (validate_all F db ck vr) \<longleftrightarrow>
      check_passed (check_data_completeness db (completeness_now ck) vr1) ''completeness'' \<and>
      check_passed (check_data_freshness F db (freshness_now ck) vr2) ''freshness'' \<and>
      check_passed (check_asset_coverage db vr3) ''asset_coverage'') \<and>
   list_all (check_passed ((validate_all F db ck vr)
       \<lparr>checks := (checks (validate_all F db ck vr))(''quality'' \<mapsto> q)\<rparr>)) critical_checks =
     vr_passed (validate_all F db ck vr)"
proof -
  let ?R = "validate_all F db ck vr"
  have a: "vr_passed ?R \<longleftrightarrow> check_passed ?R ''completeness'' \<and> check_passed ?R ''freshness'' \<and>
      check_passed ?R ''asset_coverage''"
    by (rule vr_passed_validate_all)
  have b: "vr_passed ?R \<longleftrightarrow>
      check_passed (check_data_completeness db (completeness_now ck) vr1) ''completeness'' \<and>
      check_passed (check_data_freshness F db (freshness_now ck) vr2) ''freshness'' \<and>
      check_passed (check_asset_coverage db vr3) ''asset_coverage''"
    unfolding a
    by (simp only: validate_all_completeness [of F db ck vr vr1]
        validate_all_freshness [of F db ck vr vr2] validate_all_coverage [of F db ck vr vr3])
  have "list_all (check_passed (?R\<lparr>checks := (checks ?R)(''quality'' \<mapsto> q)\<rparr>)) critical_checks =
      list_all (check_passed ?R) critical_checks"
    by (rule aggregate_ignores_quality)
  also have "\<dots> = vr_passed ?R"
    by (simp add: validate_all_def Let_def critical_checks_def)
  finally have c: "list_all (check_passed (?R\<lparr>checks := (checks ?R)(''quality'' \<mapsto> q)\<rparr>))
      critical_checks = vr_passed ?R" .
  from a b c show ?thesis by blast
qed

section \<open>Properties of the quality check\<close>

lemma quality_handler:
  "fault db QualityNullsQ = Some e \<or> (fault db QualityNullsQ = None \<and> fault db QualityTotalQ = Some e) \<Longrightarrow>
   check_data_quality F db now vr =
     add_warning (''Quality check error: '' @ str_exn e) (set_check ''quality'' True (str_exn e) vr)"
  by (auto simp add: check_data_quality_def execute_def Let_def)

lemma quality_ok:
  "fault db QualityNullsQ = None \<Longrightarrow> fault db QualityTotalQ = None \<Longrightarrow>
   check_data_quality F db now vr =
     (let x = null_ratio (count_exact (null_close_rows db)) (count_exact (recent_rows db now))
      in if x \<le> MAX_MISSING_RATIO
         then set_check ''quality'' True (''Null ratio: '' @ percent2 F x) vr
         else add_warning (''High null ratio: '' @ percent2 F x)
                (set_check ''quality'' True (''Null ratio: '' @ percent2 F x) vr))"
  by (simp add: check_data_quality_def execute_def Let_def)

lemma quality_cases:
  "(\<exists>e. fault db QualityNullsQ = Some e \<or> (fault db QualityNullsQ = None \<and> fault db QualityTotalQ = Some e))
   \<or> (fault db QualityNullsQ = None \<and> fault db QualityTotalQ = None)"
  by (cases "fault db QualityNullsQ"; cases "fault db QualityTotalQ") auto

lemma quality_passed_True:
  "\<exists>d. checks (check_data_quality F db now vr) ''quality'' = Some \<lparr>passed = True, details = d\<rparr>"
  using quality_cases [of db]
  by (auto simp add: quality_handler quality_ok Let_def set_check_def add_warning_def)

lemma quality_errors:
  "errors (check_data_quality F db now vr) = errors vr"
  using quality_cases [of db]
  by (auto simp add: quality_handler quality_ok Let_def set_check_def add_warning_def)

text \<open>
  C5. The quality check records \<open>passed = True\<close> in every case and never appends an
  error. When the computed null ratio exceeds \<open>MAX_MISSING_RATIO\<close> it appends one warning
  and records \<open>passed = True\<close>; when one of its two queries raises \<open>e\<close> it records
  \<open>passed = True\<close> with \<open>str(e)\<close> as details and appends one warning.
\<close>

theorem quality_always_passes:
  "(\<exists>d. checks (check_data_quality F db now vr) ''quality'' = Some \<lparr>passed = True, details = d\<rparr>) \<and>
   errors (check_data_quality F db now vr) = errors vr \<and>
   (fault db QualityNullsQ = None \<and> fault db QualityTotalQ = None \<and>
    MAX_MISSING_RATIO < null_ratio (count_exact (null_close_rows db)) (count_exact (recent_rows db now))
    \<longrightarrow>
      checks (check_data_quality F db now vr) ''quality'' =
        Some \<lparr>passed = True, details = ''Null ratio: '' @ percent2 F
          (null_ratio (count_exact (null_close_rows db)) (count_exact (recent_rows db now)))\<rparr> \<and>
      warnings (check_data_quality F db now vr) =
        warnings vr @ [''High null ratio: '' @ percent2 F
          (null_ratio (count_exact (null_close_rows db)) (count_exact (recent_rows db now)))]) \<and>
   (fault db QualityNullsQ = Some e \<or>
    (fault db QualityNullsQ = None \<and> fault db QualityTotalQ = Some e)
    \<longrightarrow>
      checks (check_data_quality F db now vr) ''quality'' =
        Some \<lparr>passed = True, details = str_exn e\<rparr> \<and>
      warnings (check_data_quality F db now vr) =
        warnings vr @ [''Quality check error: '' @ str_exn e])"
proof -
  have 1: "\<exists>d. checks (check_data_quality F db now vr) ''quality'' = Some \<lparr>passed = True, details = d\<rparr>"
    by (rule quality_passed_True)
  have 2: "errors (check_data_quality F db now vr) = errors vr"
    by (rule quality_errors)
  have 3: "checks (check_data_quality F db now vr) ''quality'' =
        Some \<lparr>passed = True, details = ''Null ratio: '' @ percent2 F
          (null_ratio (count_exact (null_close_rows db)) (count_exact (recent_rows db now)))\<rparr> \<and>
      warnings (check_data_quality F db now vr) =
        warnings vr @ [''High null ratio: '' @ percent2 F
          (null_ratio (count_exact (null_close_rows db)) (count_exact (recent_rows db now)))]"
    if "fault db QualityNullsQ = None" "fault db QualityTotalQ = None"
      "MAX_MISSING_RATIO < null_ratio (count_exact (null_close_rows db)) (count_exact (recent_rows db now))"
    using that by (simp add: quality_ok Let_def set_check_def add_warning_def)
  have 4: "checks (check_data_quality F db now vr) ''quality'' =
        Some \<lparr>passed = True, details = str_exn e\<rparr> \<and>
      warnings (check_data_quality F db now vr) =
        warnings vr @ [''Quality check error: '' @ str_exn e]"
    if "fault db QualityNullsQ = Some e \<or>
        (fault db QualityNullsQ = None \<and> fault db QualityTotalQ = Some e)"
    using that by (simp add: quality_handler set_check_def add_warning_def)
  from 1 2 3 4 show ?thesis by blast
qed

lemma half_null_ratio:
  "null_ratio (count_exact (null_close_rows half_null_db)) (count_exact (recent_rows half_null_db 1)) = 1 / 2"
  by (simp add: null_ratio_def count_exact_def null_close_rows_def recent_rows_def py_or_def db_eval)

lemma stale_null_ratio:
  "null_ratio (count_exact (null_close_rows stale_null_db)) (count_exact (recent_rows stale_null_db 0)) = 1"
  by (simp add: null_ratio_def count_exact_def null_close_rows_def recent_rows_def py_or_def db_eval)

theorem quality_always_passes_witness:
  "fault half_null_db QualityNullsQ = None \<and> fault half_null_db QualityTotalQ = None \<and>
   MAX_MISSING_RATIO < null_ratio (count_exact (null_close_rows half_null_db))
                                  (count_exact (recent_rows half_null_db 1)) \<and>
   checks (check_data_quality demo_fmt half_null_db 1 init_validation_results) ''quality'' =
     Some \<lparr>passed = True, details = ''Null ratio: (percent)''\<rparr> \<and>
   warnings (check_data_quality demo_fmt half_null_db 1 init_validation_results) =
     [''High null ratio: (percent)''] \<and>
   errors (check_data_quality demo_fmt half_null_db 1 init_validation_results) = [] \<and>
   fault (half_null_db\<lparr>fault := fault_at QualityTotalQ (Exception ''connection reset'')\<rparr>)
     QualityNullsQ = None \<and>
   fault (half_null_db\<lparr>fault := fault_at QualityTotalQ (Exception ''connection reset'')\<rparr>)
     QualityTotalQ = Some (Exception ''connection reset'') \<and>
   checks (check_data_quality demo_fmt
       (half_null_db\<lparr>fault := fault_at QualityTotalQ (Exception ''connection reset'')\<rparr>) 1
       init_validation_results) ''quality'' =
     Some \<lparr>passed = True, details = ''connection reset''\<rparr> \<and>
   warnings (check_data_quality demo_fmt
       (half_null_db\<lparr>fault := fault_at QualityTotalQ (Exception ''connection reset'')\<rparr>) 1
       init_validation_results) =
     [''Quality check error: connection reset'']"
proof -
  let ?db = "half_null_db\<lparr>fault := fault_at QualityTotalQ (Exception ''connection reset'')\<rparr>"
  have h1: "fault half_null_db QualityNullsQ = None" "fault half_null_db QualityTotalQ = None"
    by (simp_all add: db_eval)
  have h2: "MAX_MISSING_RATIO < null_ratio (count_exact (null_close_rows half_null_db))
                                  (count_exact (recent_rows half_null_db 1))"
    by (simp add: half_null_ratio MAX_MISSING_RATIO_def)
  have h3: "fault ?db QualityNullsQ = None"
      "fault ?db QualityTotalQ = Some (Exception ''connection reset'')"
    by (simp_all add: db_eval)
  show ?thesis
    using h1 h2 h3
      quality_always_passes [of demo_fmt half_null_db 1 init_validation_results]
      quality_always_passes [of demo_fmt ?db 1 init_validation_results "Exception ''connection reset''"]
    by (simp add: half_null_ratio init_validation_results_def demo_fmt_def)
qed

text \<open>
  C6. The specification has the null ratio count the rows without a close price within
  the trailing seven days. The first query of \<open>check_data_quality\<close> has no filter on the
  timestamp: with one such row thirty days old and one complete row of today, the check
  computes the ratio 1 and warns, where the ratio within the window is 0.
\<close>

theorem quality_ratio_not_windowed:
  "null_ratio (count_exact (null_close_rows stale_null_db))
              (count_exact (recent_rows stale_null_db 0)) = 1 \<and>
   windowed_null_ratio stale_null_db 0 = 0 \<and>
   checks (check_data_quality demo_fmt stale_null_db 0 init_validation_results) ''quality'' =
     Some \<lparr>passed = True, details = ''Null ratio: '' @ percent2 demo_fmt 1\<rparr> \<and>
   warnings (check_data_quality demo_fmt stale_null_db 0 init_validation_results) =
     [''High null ratio: '' @ percent2 demo_fmt 1]"
proof -
  have f: "fault stale_null_db QualityNullsQ = None" "fault stale_null_db QualityTotalQ = None"
    by (simp_all add: db_eval)
  have w: "windowed_null_ratio stale_null_db 0 = 0"
    by (simp add: windowed_null_ratio_def recent_rows_def db_eval)
  show ?thesis
    using w by (simp add: quality_ok [OF f] stale_null_ratio Let_def MAX_MISSING_RATIO_def
        set_check_def add_warning_def init_validation_results_def)
qed

section \<open>Properties of the freshness check\<close>

lemma last_sorted_Max:
  fixes xs :: "int list"
  shows "sorted xs \<Longrightarrow> xs \<noteq> [] \<Longrightarrow> last xs = Max (set xs)"
proof (induction xs)
  case Nil
  then show ?case by simp
next
  case (Cons a xs)
  show ?case
  proof (cases "xs = []")
    case True
    then show ?thesis by simp
  next
    case False
    with Cons have l: "last xs = Max (set xs)" by simp
    have "Max (set xs) \<in> set xs"
      using False by (simp add: Max_in)
    with Cons.prems have "a \<le> Max (set xs)" by auto
    then have "Max (insert a (set xs)) = Max (set xs)"
      using False by (simp add: max_def)
    with l False show ?thesis by simp
  qed
qed

lemma latest_rows_Nil: "price_history db = [] \<Longrightarrow> latest_rows db = []"
  by (simp add: latest_rows_def)

lemma latest_rows_Max:
  assumes "price_history db \<noteq> []"
  shows "\<exists>r rs. latest_rows db = r # rs \<and> timestamp r = Max (timestamp ` set (price_history db))"
proof -
  let ?ys = "sort_key timestamp (price_history db)"
  have ne: "?ys \<noteq> []"
    using assms by (metis length_sort length_0_conv)
  then have lr: "latest_rows db = [last ?ys]"
    by (cases ?ys rule: rev_cases) (simp_all add: latest_rows_def)
  have "timestamp (last ?ys) = last (map timestamp ?ys)"
    using ne by (simp add: last_map)
  also have "\<dots> = Max (set (map timestamp ?ys))"
    using ne by (intro last_sorted_Max) simp_all
  finally have "timestamp (last ?ys) = Max (timestamp ` set (price_history db))"
    by simp
  with lr show ?thesis by blast
qed

lemma age_hours_le_48:
  "(of_int d / 1000000 / 3600 :: rat) \<le> 48 \<longleftrightarrow> d \<le> 48 * 3600 * 1000000"
proof -
  have "(of_int d / 1000000 / 3600 :: rat) \<le> 48 \<longleftrightarrow> (of_int d :: rat) \<le> of_int (48 * 3600 * 1000000)"
    by (simp add: field_simps)
  then show ?thesis
    by (simp only: of_int_le_iff)
qed

lemma freshness_fault:
  "fault db FreshnessQ = Some e \<Longrightarrow> \<not> check_passed (check_data_freshness F db now vr) ''freshness''"
  by (simp add: check_data_freshness_def check_defs)

lemma freshness_no_data:
  "fault db FreshnessQ = None \<Longrightarrow> price_history db = [] \<Longrightarrow>
   check_data_freshness F db now vr =
     add_error ''No data in price_history table''
       (set_check ''freshness'' False ''No data found in price_history'' vr)"
  by (simp add: check_data_freshness_def execute_def latest_rows_Nil)

lemma freshness_rows:
  assumes "fault db FreshnessQ = None" and "price_history db \<noteq> []"
  shows "check_passed (check_data_freshness F db now vr) ''freshness'' \<longleftrightarrow>
         now - Max (timestamp ` set (price_history db)) \<le> 48 * 3600 * 1000000"
proof -
  from latest_rows_Max [OF assms(2)] obtain r rs where
    lr: "latest_rows db = r # rs" and t: "timestamp r = Max (timestamp ` set (price_history db))"
    by blast
  show ?thesis
    using assms(1) lr t
    by (simp add: check_data_freshness_def check_defs Let_def age_hours_le_48 del: Max_less_iff Max_le_iff)
qed

text \<open>
  C7. The freshness check passes exactly when its query returns, price rows exist and the
  latest timestamp is at most 48 hours old, the bound included: with the latest row at
  instant 0 the check passes at 48 hours and fails one second later. When the query
  returns and the table has no rows, the check records \<open>passed = False\<close> with the
  no-data details and appends the no-data error.
\<close>

theorem freshness_closed_boundary:
  "(check_passed (check_data_freshness F db now vr) ''freshness'' \<longleftrightarrow>
      fault db FreshnessQ = None \<and> price_history db \<noteq> [] \<and>
      now - Max (timestamp ` set (price_history db)) \<le> 48 * 3600 * 1000000) \<and>
   (fault db FreshnessQ = None \<and> price_history db = [] \<longrightarrow>
      checks (check_data_freshness F db now vr) ''freshness'' =
        Some \<lparr>passed = False, details = ''No data found in price_history''\<rparr> \<and>
      errors (check_data_freshness F db now vr) = errors vr @ [''No data in price_history table''])"
proof -
  have a: "check_passed (check_data_freshness F db now vr) ''freshness'' \<longleftrightarrow>
      fault db FreshnessQ = None \<and> price_history db \<noteq> [] \<and>
      now - Max (timestamp ` set (price_history db)) \<le> 48 * 3600 * 1000000"
  proof (cases "fault db FreshnessQ")
    case (Some e)
    then show ?thesis using freshness_fault [of db e F now vr] by simp
  next
    case None
    show ?thesis
    proof (cases "price_history db = []")
      case True
      with None show ?thesis
        by (simp add: freshness_no_data set_check_def add_error_def check_passed_def)
    next
      case False
      with None freshness_rows [of db F now vr] show ?thesis by simp
    qed
  qed
  have b: "checks (check_data_freshness F db now vr) ''freshness'' =
        Some \<lparr>passed = False, details = ''No data found in price_history''\<rparr> \<and>
      errors (check_data_freshness F db now vr) = errors vr @ [''No data in price_history table'']"
    if "fault db FreshnessQ = None \<and> price_history db = []"
    using that by (simp add: freshness_no_data set_check_def add_error_def)
  from a b show ?thesis by blast
qed

theorem freshness_closed_boundary_witness:
  "fault empty_db FreshnessQ = None \<and> price_history empty_db = [] \<and>
   checks (check_data_freshness demo_fmt empty_db 0 init_validation_results) ''freshness'' =
     Some \<lparr>passed = False, details = ''No data found in price_history''\<rparr> \<and>
   errors (check_data_freshness demo_fmt empty_db 0 init_validation_results) =
     [''No data in price_history table''] \<and>
   check_passed (check_data_freshness demo_fmt epoch_db (48 * 3600 * 1000000)
     init_validation_results) ''freshness'' \<and>
   \<not> check_passed (check_data_freshness demo_fmt epoch_db (48 * 3600 * 1000000 + 1000000)
     init_validation_results) ''freshness''"
proof -
  have h: "fault empty_db FreshnessQ = None" "price_history empty_db = []"
    by (simp_all add: db_eval)
  have e: "fault epoch_db FreshnessQ = None" "price_history epoch_db \<noteq> []"
    "Max (timestamp ` set (price_history epoch_db)) = 0"
    by (simp_all add: db_eval)
  show ?thesis
    using h e
      freshness_closed_boundary [of demo_fmt empty_db 0 init_validation_results]
      freshness_closed_boundary [of demo_fmt epoch_db "48 * 3600 * 1000000" init_validation_results]
      freshness_closed_boundary [of demo_fmt epoch_db "48 * 3600 * 1000000 + 1000000"
        init_validation_results]
    by (simp add: init_validation_results_def)
qed

section \<open>Properties of the main orchestrator and of the state machine\<close>

text \<open>
  Against C8 as stated: called with the empty list on a new orchestrator,
  \<open>ingest_daily_data\<close> returns stats that are all zero; it has no failure to report.
\<close>

theorem ingest_empty_silent:
  "ingest_daily_data PipelineService 0 [] (init_stats, ()) =
     (\<lparr>total_assets = 0, successful = 0, failed = 0, skipped = 0, total_records = 0\<rparr>, ())"
  by (simp add: ingest_daily_data_def init_stats_def)

text \<open>
  C8, as the code has it. \<open>ingest_daily_data\<close> called with the empty list returns its
  stats with \<open>total_assets = 0\<close> and the counters untouched, calling no service and
  reporting no failure. The empty list is a failed precondition one level up: when
  \<open>fetch_active_assets\<close> returns no asset, \<open>main\<close> returns \<open>False\<close> with neither
  \<open>ingestion_stats\<close> nor \<open>validation_results\<close> assigned and the world as it was, so
  neither ingestion nor validation has run; when it returns assets, both have run, on
  those assets and on the storage that ingestion has left, and \<open>main\<close> returns the
  verdict of the validation.
\<close>

theorem empty_assets_guarded_by_main:
  "ingest_daily_data svc now [] (st, w) = (st\<lparr>total_assets := 0\<rparr>, w) \<and>
   (fetch_active_assets (view w) = Inr [] \<longrightarrow>
      main svc view F now' ck w =
        (\<lparr>returned = False, ingestion_stats_of = None, validation_results_of = None\<rparr>, w)) \<and>
   (fetch_active_assets (view w) = Inr assets \<and> assets \<noteq> [] \<longrightarrow>
      main svc view F now' ck w =
        (\<lparr>returned = vr_passed (validate_all F
             (view (snd (ingest_daily_data svc now' assets (init_stats, w)))) ck
             init_validation_results),
          ingestion_stats_of = Some (fst (ingest_daily_data svc now' assets (init_stats, w))),
          validation_results_of = Some (validate_all F
             (view (snd (ingest_daily_data svc now' assets (init_stats, w)))) ck
             init_validation_results)\<rparr>,
         snd (ingest_daily_data svc now' assets (init_stats, w))))"
proof -
  have a: "ingest_daily_data svc now [] (st, w) = (st\<lparr>total_assets := 0\<rparr>, w)"
    by (simp add: ingest_daily_data_def)
  show ?thesis
    unfolding a by (simp add: main_def Let_def case_prod_beta)
qed

theorem empty_assets_guarded_by_main_witness:
  "ingest_daily_data demo_service 0 [] (init_stats, 0) = (init_stats, 0) \<and>
   fetch_active_assets ((\<lambda>n. inactive_db) (0::nat)) = Inr [] \<and>
   main demo_service (\<lambda>n. inactive_db) demo_fmt 0 demo_clocks 0 =
     (\<lparr>returned = False, ingestion_stats_of = None, validation_results_of = None\<rparr>, 0) \<and>
   fetch_active_assets ((\<lambda>n. one_active_db) (0::nat)) = Inr [mk_asset ''A''] \<and>
   [mk_asset ''A''] \<noteq> [] \<and>
   ingestion_stats_of (fst (main demo_service (\<lambda>n. one_active_db) demo_fmt 0 demo_clocks 0)) =
     Some \<lparr>total_assets = 1, successful = 1, failed = 0, skipped = 0, total_records = 2\<rparr> \<and>
   snd (main demo_service (\<lambda>n. one_active_db) demo_fmt 0 demo_clocks 0) = 1"
proof -
  have h: "fetch_active_assets ((\<lambda>n. inactive_db) (0::nat)) = Inr []"
    by (simp add: fetch_active_assets_def execute_def db_eval)
  have k: "fetch_active_assets ((\<lambda>n. one_active_db) (0::nat)) = Inr [mk_asset ''A'']"
    by (simp add: fetch_active_assets_def execute_def one_active_db_def no_fault_def
        mk_asset_def asset.truncate_def)
  have "groups_of [mk_asset ''A''] = [[mk_asset ''A'']]"
    by (simp add: groups_of_def chunks_Cons BATCH_SIZE_def GROUP_SIZE_def)
  then have i: "ingest_daily_data demo_service 0 [mk_asset ''A''] (init_stats, 0) =
      (\<lparr>total_assets = 1, successful = 1, failed = 0, skipped = 0, total_records = 2\<rparr>, 1)"
    by (simp add: ingest_as_groups demo_eval)
  show ?thesis
    using h k i
      empty_assets_guarded_by_main
        [of demo_service 0 init_stats 0 "\<lambda>n. inactive_db" demo_fmt 0 demo_clocks]
      empty_assets_guarded_by_main
        [of demo_service 0 init_stats 0 "\<lambda>n. one_active_db" demo_fmt 0 demo_clocks
          "[mk_asset ''A'']"]
    by (simp add: init_stats_def)
qed

lemmas pipeline_eval = run_pipeline_def run_pipeline_try_def while_running_def
  while_validating_def while_computing_def while_caching_def while_completed_def
  and_then_def log_at_def require_def set_status_def tier1_ingestion_def tier2_validation_def
  tier3_analytics_def tier4_cache_def tier_body_def tier_handler_def Let_def

text \<open>
  Against C9 as stated: a run in which nothing fails enters \<open>COMPUTING\<close> and \<open>CACHING\<close>,
  which are outside \<open>IDLE\<close>, \<open>RUNNING\<close>, \<open>VALIDATING\<close>, \<open>COMPLETED\<close>, \<open>FAILED\<close>.
\<close>

theorem run_pipeline_enters_computing:
  "entered (snd (run_pipeline no_faults 0 1 2 init_pipeline_state)) =
     [RUNNING, VALIDATING, COMPUTING, CACHING, COMPLETED] \<and>
   COMPUTING \<notin> {IDLE, RUNNING, VALIDATING, COMPLETED, FAILED} \<and>
   CACHING \<notin> {IDLE, RUNNING, VALIDATING, COMPLETED, FAILED}"
  by (simp add: pipeline_eval init_pipeline_state_def no_faults_def)

lemma log_at_if:
  "log_at raises l st = (if raises_at raises l then (Inl (the (raises l)), st) else (Inr (), st))"
  by (simp add: log_at_def raises_at_def split: option.splits)

lemma tier_handler_if:
  "tier_handler raises t st =
     (if raises_at raises (TierHandler t) then (Inl (the (raises (TierHandler t))), st)
      else (Inr False, st))"
  by (simp add: tier_handler_def raises_at_def split: option.splits)

lemma tier_body_if:
  "tier_body raises t upd st =
     (if raises_at raises (TierBefore t) then tier_handler raises t st
      else if raises_at raises (TierAfter t)
      then tier_handler raises t (st\<lparr>metrics := upd (metrics st)\<rparr>)
      else (Inr True, st\<lparr>metrics := upd (metrics st)\<rparr>))"
  by (simp add: tier_body_def raises_at_def Let_def split: option.splits)

lemma and_then_log:
  "and_then (log_at raises l st) k =
     (if raises_at raises l then (Inl (the (raises l)), st) else k () st)"
  by (simp add: and_then_def log_at_if)

text \<open>A tier followed by the test of its result goes on exactly when the tier does not fail.\<close>

lemma and_then_tier:
  "and_then (tier_body raises t upd st) (\<lambda>ok st'. and_then (require msg ok st') k) =
     (if tier_fails raises t
      then (Inl (if raises_at raises (TierHandler t) then the (raises (TierHandler t))
                 else Exception msg),
            if raises_at raises (TierBefore t) then st else st\<lparr>metrics := upd (metrics st)\<rparr>)
      else k () (st\<lparr>metrics := upd (metrics st)\<rparr>))"
  by (simp add: and_then_def tier_body_if tier_handler_if require_def tier_fails_def)

lemma and_then_tier_last:
  "and_then (tier_body raises t upd st) (\<lambda>ok st'. require msg ok st') =
     (if tier_fails raises t
      then (Inl (if raises_at raises (TierHandler t) then the (raises (TierHandler t))
                 else Exception msg),
            if raises_at raises (TierBefore t) then st else st\<lparr>metrics := upd (metrics st)\<rparr>)
      else (Inr (), st\<lparr>metrics := upd (metrics st)\<rparr>))"
  by (simp add: and_then_def tier_body_if tier_handler_if require_def tier_fails_def)


lemma and_then_simps:
  "and_then (Inl e, st) k = (Inl e, st)"
  "and_then (Inr x, st) k = k x st"
  "and_then (if c then a else b) k = (if c then and_then a k else and_then b k)"
  by (simp_all add: and_then_def)

lemmas stage_eval = and_then_simps and_then_tier and_then_tier_last log_at_if
  tier1_ingestion_def tier2_validation_def tier3_analytics_def tier4_cache_def

lemma while_running_facts:
  "isl (fst (while_running raises st)) = fails_while raises RUNNING"
  "entered (snd (while_running raises st)) = entered st"
  "status (snd (while_running raises st)) = status st"
  by (simp_all add: while_running_def stage_eval)

lemma while_validating_facts:
  "isl (fst (while_validating raises st)) = fails_while raises VALIDATING"
  "entered (snd (while_validating raises st)) = entered st @ [VALIDATING]"
  "status (snd (while_validating raises st)) = VALIDATING"
  by (simp_all add: while_validating_def stage_eval set_status_def)

lemma while_computing_facts:
  "isl (fst (while_computing raises st)) = fails_while raises COMPUTING"
  "entered (snd (while_computing raises st)) = entered st @ [COMPUTING]"
  "status (snd (while_computing raises st)) = COMPUTING"
  by (simp_all add: while_computing_def stage_eval set_status_def)

lemma while_caching_facts:
  "isl (fst (while_caching raises st)) = fails_while raises CACHING"
  "entered (snd (while_caching raises st)) = entered st @ [CACHING]"
  "status (snd (while_caching raises st)) = CACHING"
  by (simp_all add: while_caching_def stage_eval set_status_def)

lemma while_completed_facts:
  "isl (fst (while_completed raises t1 st)) = fails_while raises COMPLETED"
  "entered (snd (while_completed raises t1 st)) = entered st @ [COMPLETED]"
  "status (snd (while_completed raises t1 st)) = COMPLETED"
  "\<not> fails_while raises COMPLETED \<Longrightarrow> fst (while_completed raises t1 st) = Inr Success"
  by (simp_all add: while_completed_def stage_eval set_status_def Let_def)


lemma and_then_fst:
  "and_then m k =
     (if isl (fst m) then (Inl (projl (fst m)), snd m) else k (projr (fst m)) (snd m))"
  by (cases m; cases "fst m"; simp add: and_then_def)

lemma try_facts:
  "entered (snd (run_pipeline_try raises t1 st)) = entered st @
     (if fails_while raises RUNNING then []
      else if fails_while raises VALIDATING then [VALIDATING]
      else if fails_while raises COMPUTING then [VALIDATING, COMPUTING]
      else if fails_while raises CACHING then [VALIDATING, COMPUTING, CACHING]
      else [VALIDATING, COMPUTING, CACHING, COMPLETED])"
  "isl (fst (run_pipeline_try raises t1 st)) =
     (fails_while raises RUNNING \<or> fails_while raises VALIDATING \<or>
      fails_while raises COMPUTING \<or> fails_while raises CACHING \<or>
      fails_while raises COMPLETED)"
  "\<not> isl (fst (run_pipeline_try raises t1 st)) \<Longrightarrow>
     fst (run_pipeline_try raises t1 st) = Inr Success \<and>
     status (snd (run_pipeline_try raises t1 st)) = COMPLETED"
proof -
  note facts = while_running_facts while_validating_facts while_computing_facts
    while_caching_facts while_completed_facts
  show "entered (snd (run_pipeline_try raises t1 st)) = entered st @
     (if fails_while raises RUNNING then []
      else if fails_while raises VALIDATING then [VALIDATING]
      else if fails_while raises COMPUTING then [VALIDATING, COMPUTING]
      else if fails_while raises CACHING then [VALIDATING, COMPUTING, CACHING]
      else [VALIDATING, COMPUTING, CACHING, COMPLETED])"
    unfolding run_pipeline_try_def
    by (simp add: and_then_fst facts del: fails_while.simps)
  show i: "isl (fst (run_pipeline_try raises t1 st)) =
     (fails_while raises RUNNING \<or> fails_while raises VALIDATING \<or>
      fails_while raises COMPUTING \<or> fails_while raises CACHING \<or>
      fails_while raises COMPLETED)"
    unfolding run_pipeline_try_def
    by (simp add: and_then_fst facts del: fails_while.simps)
  show "fst (run_pipeline_try raises t1 st) = Inr Success \<and>
     status (snd (run_pipeline_try raises t1 st)) = COMPLETED"
    if "\<not> isl (fst (run_pipeline_try raises t1 st))"
    using that unfolding i
    unfolding run_pipeline_try_def
    by (simp add: and_then_fst facts del: fails_while.simps)
qed


text \<open>
  C9, as the code has it. A new service is \<open>IDLE\<close>. From any state and whatever raises,
  the statuses that \<open>run_pipeline\<close> assigns are \<open>RUNNING\<close>, \<open>VALIDATING\<close>, \<open>COMPUTING\<close>,
  \<open>CACHING\<close>, \<open>COMPLETED\<close> in this order up to the first stage in which a tier fails or
  a logging call of \<open>run_pipeline\<close> raises, and then \<open>FAILED\<close>; when nothing fails the
  run ends in \<open>COMPLETED\<close>. Neither \<open>PAUSED\<close> nor \<open>IDLE\<close> is assigned, the status at the
  end is the last one assigned, and the run returns success exactly when it ends in
  \<open>COMPLETED\<close>.
\<close>

theorem run_pipeline_path:
  "entered (snd (run_pipeline raises t0 t1 t2 st)) = entered st @
     (if fails_while raises RUNNING then [RUNNING, FAILED]
      else if fails_while raises VALIDATING then [RUNNING, VALIDATING, FAILED]
      else if fails_while raises COMPUTING then [RUNNING, VALIDATING, COMPUTING, FAILED]
      else if fails_while raises CACHING then [RUNNING, VALIDATING, COMPUTING, CACHING, FAILED]
      else if fails_while raises COMPLETED
      then [RUNNING, VALIDATING, COMPUTING, CACHING, COMPLETED, FAILED]
      else [RUNNING, VALIDATING, COMPUTING, CACHING, COMPLETED]) \<and>
   status (snd (run_pipeline raises t0 t1 t2 st)) =
     last (entered (snd (run_pipeline raises t0 t1 t2 st))) \<and>
   status init_pipeline_state = IDLE \<and> entered init_pipeline_state = [] \<and>
   PAUSED \<notin> set (drop (length (entered st)) (entered (snd (run_pipeline raises t0 t1 t2 st)))) \<and>
   IDLE \<notin> set (drop (length (entered st)) (entered (snd (run_pipeline raises t0 t1 t2 st)))) \<and>
   (fst (run_pipeline raises t0 t1 t2 st) = Inr Success) =
     (status (snd (run_pipeline raises t0 t1 t2 st)) = COMPLETED)"
proof -
  let ?s1 = "(set_status RUNNING st)\<lparr>metrics :=
      (metrics (set_status RUNNING st))\<lparr>start_time := Some t0\<rparr>\<rparr>"
  let ?T = "run_pipeline_try raises t1 ?s1"
  let ?R = "run_pipeline raises t0 t1 t2 st"
  have s1: "entered ?s1 = entered st @ [RUNNING]"
    by (simp add: set_status_def)
  show ?thesis
  proof (cases "isl (fst ?T)")
    case True
    then obtain e where e: "fst ?T = Inl e"
      by (cases "fst ?T") simp_all
    then have T: "?T = (Inl e, snd ?T)"
      by (metis prod.collapse)
    have R: "entered (snd ?R) = entered (snd ?T) @ [FAILED]" "status (snd ?R) = FAILED"
      "fst ?R \<noteq> Inr Success"
      unfolding run_pipeline_def Let_def
      by (subst T, simp add: set_status_def split: option.splits)+
    from True have f: "fails_while raises RUNNING \<or> fails_while raises VALIDATING \<or>
        fails_while raises COMPUTING \<or> fails_while raises CACHING \<or>
        fails_while raises COMPLETED"
      by (simp add: try_facts(2) del: fails_while.simps)
    from f R show ?thesis
      by (simp add: try_facts(1) s1 init_pipeline_state_def del: fails_while.simps) auto
  next
    case False
    with try_facts(3) [of raises t1 ?s1]
    have ok: "fst ?T = Inr Success" "status (snd ?T) = COMPLETED"
      by simp_all
    then have T: "?T = (Inr Success, snd ?T)"
      by (metis prod.collapse)
    have R: "entered (snd ?R) = entered (snd ?T)" "status (snd ?R) = COMPLETED"
      "fst ?R = Inr Success"
      unfolding run_pipeline_def Let_def
      by (subst T, simp add: ok)+
    from False have f: "\<not> fails_while raises RUNNING" "\<not> fails_while raises VALIDATING"
        "\<not> fails_while raises COMPUTING" "\<not> fails_while raises CACHING"
        "\<not> fails_while raises COMPLETED"
      by (simp_all add: try_facts(2) del: fails_while.simps)
    from f R show ?thesis
      by (simp add: try_facts(1) s1 init_pipeline_state_def del: fails_while.simps)
  qed
qed

theorem run_pipeline_path_witness:
  "entered (snd (run_pipeline (only_at (TierBefore Tier2)) 0 1 2 init_pipeline_state)) =
     [RUNNING, VALIDATING, FAILED] \<and>
   status (snd (run_pipeline (only_at (TierBefore Tier2)) 0 1 2 init_pipeline_state)) = FAILED \<and>
   entered (snd (run_pipeline (only_at LogDone) 0 1 2 init_pipeline_state)) =
     [RUNNING, VALIDATING, COMPUTING, CACHING, COMPLETED, FAILED] \<and>
   fst (run_pipeline no_faults 0 1 2 init_pipeline_state) = Inr Success"
  using run_pipeline_path [of "only_at (TierBefore Tier2)" 0 1 2 init_pipeline_state]
    run_pipeline_path [of "only_at LogDone" 0 1 2 init_pipeline_state]
    run_pipeline_path [of no_faults 0 1 2 init_pipeline_state]
  by (simp add: raises_at_def tier_fails_def only_at_def no_faults_def init_pipeline_state_def)

section \<open>Properties of the rate limiter\<close>

lemma rate_limit_config [simp]: "config (snd (rate_limit c r)) = config c"
  by (simp add: rate_limit_def limiter_enter_def limiter_resume_def Let_def)

text \<open>One limiter: the new stamp is at least the delay after the one before.\<close>

lemma rate_limit_gap:
  "respect_server (config c) \<Longrightarrow> honoured c r \<Longrightarrow>
   last_request_time c + delay_between_requests (config c)
     \<le> last_request_time (snd (rate_limit c r))"
  by (auto simp add: honoured_def rate_limit_def limiter_enter_def limiter_resume_def Let_def
      split: if_splits)

lemma spaced_append:
  "spaced d (a # xs) \<Longrightarrow> spaced d (last (a # xs) # ys) \<Longrightarrow> spaced d (a # xs @ ys)"
  by (induction xs arbitrary: a) simp_all

lemma fetch_groups_spaced:
  "respect_server (config c) \<Longrightarrow> honoured_groups c gs k rd \<Longrightarrow>
   config (fst (fetch_groups c gs k rd)) = config c \<and>
   last_request_time (fst (fetch_groups c gs k rd)) =
     last (last_request_time c # snd (fetch_groups c gs k rd)) \<and>
   spaced (delay_between_requests (config c))
     (last_request_time c # snd (fetch_groups c gs k rd))"
proof (induction gs arbitrary: c k)
  case Nil
  then show ?case by simp
next
  case (Cons g gs)
  let ?c1 = "snd (rate_limit c (rd k))"
  from Cons.prems have h: "honoured c (rd k)" and hs: "honoured_groups ?c1 gs (Suc k) rd"
    by simp_all
  have r1: "respect_server (config ?c1)"
    using Cons.prems(1) by simp
  from Cons.IH [OF r1 hs] have ih:
    "config (fst (fetch_groups ?c1 gs (Suc k) rd)) = config c"
    "last_request_time (fst (fetch_groups ?c1 gs (Suc k) rd)) =
       last (last_request_time ?c1 # snd (fetch_groups ?c1 gs (Suc k) rd))"
    "spaced (delay_between_requests (config c))
       (last_request_time ?c1 # snd (fetch_groups ?c1 gs (Suc k) rd))"
    by simp_all
  from rate_limit_gap [OF Cons.prems(1) h]
  have gap: "last_request_time c + delay_between_requests (config c) \<le> last_request_time ?c1" .
  show ?case
    using ih gap by (simp add: Let_def case_prod_beta)
qed

lemma perform_spaced:
  assumes "respect_server (config c)" and "honoured_call c x"
  shows "config (fst (perform c x)) = config c \<and>
         last_request_time (fst (perform c x)) = last (last_request_time c # snd (perform c x)) \<and>
         spaced (delay_between_requests (config c)) (last_request_time c # snd (perform c x))"
proof (cases x)
  case (Historical r)
  with assms rate_limit_gap [of c r] show ?thesis
    by (simp add: fetch_historical_data_def Let_def)
next
  case (BatchMulti syms gsize rd)
  show ?thesis
  proof (cases "gsize \<le> 0")
    case True
    with BatchMulti show ?thesis
      by (simp add: fetch_batch_multi_def)
  next
    case False
    with BatchMulti assms(2) have "honoured_groups c (chunks (nat gsize) syms) 0 rd"
      by simp
    from fetch_groups_spaced [OF assms(1) this] BatchMulti False show ?thesis
      by (simp add: fetch_batch_multi_def)
  qed
qed

lemma session_spaced:
  "respect_server (config c) \<Longrightarrow> honoured_session c xs \<Longrightarrow>
   config (fst (session c xs)) = config c \<and>
   last_request_time (fst (session c xs)) = last (last_request_time c # snd (session c xs)) \<and>
   spaced (delay_between_requests (config c)) (last_request_time c # snd (session c xs))"
proof (induction xs arbitrary: c)
  case Nil
  then show ?case by simp
next
  case (Cons x xs)
  let ?c1 = "fst (perform c x)"
  from Cons.prems have hx: "honoured_call c x" and hs: "honoured_session ?c1 xs"
    by simp_all
  from perform_spaced [OF Cons.prems(1) hx] have p:
    "config ?c1 = config c"
    "last_request_time ?c1 = last (last_request_time c # snd (perform c x))"
    "spaced (delay_between_requests (config c)) (last_request_time c # snd (perform c x))"
    by simp_all
  have r1: "respect_server (config ?c1)"
    using Cons.prems(1) p(1) by simp
  from Cons.IH [OF r1 hs] p(1) have ih:
    "config (fst (session ?c1 xs)) = config c"
    "last_request_time (fst (session ?c1 xs)) =
       last (last_request_time ?c1 # snd (session ?c1 xs))"
    "spaced (delay_between_requests (config c)) (last_request_time ?c1 # snd (session ?c1 xs))"
    by simp_all
  have sp: "spaced (delay_between_requests (config c))
      (last_request_time c # snd (perform c x) @ snd (session ?c1 xs))"
    using p(3) ih(3) unfolding p(2) by (rule spaced_append)
  have la: "last (last_request_time ?c1 # snd (session ?c1 xs)) =
      last (last_request_time c # snd (perform c x) @ snd (session ?c1 xs))"
    unfolding p(2) by (cases "snd (session ?c1 xs)") simp_all
  show ?case
    using ih(1) ih(2) sp la by (simp add: Let_def case_prod_beta)
qed

lemma spaced_tail: "spaced d (a # xs) \<Longrightarrow> spaced d xs"
  by (cases xs) simp_all

lemmas client_eval = YFinanceClient_init_def demo_config_def demo_calls_def demo_readings_def
  overlapping_events_def loop_init_def run_events_def rate_limit_def limiter_enter_def
  limiter_resume_def honoured_def fetch_historical_data_def fetch_batch_multi_def Let_def

text \<open>
  Against C10 as stated: three calls on one client with a delay of sixty seconds. The
  first issues its request at 90. The second and the third enter the limiter at 100 and
  at 101, while no stamp later than 90 has been written; both go to sleep, each sleep
  lasts as long as asked, and their requests go out at 150 and at 151, one second
  apart.
\<close>

theorem overlapping_requests_not_spaced:
  "respect_server (config (YFinanceClient_init demo_config)) \<and>
   requests (run_events (loop_init (YFinanceClient_init demo_config)) overlapping_events) =
     [90, 150, 151] \<and>
   sleeps_honoured (run_events (loop_init (YFinanceClient_init demo_config)) overlapping_events) \<and>
   \<not> spaced (delay_between_requests (config (YFinanceClient_init demo_config))) [90, 150, 151]"
  by (simp add: client_eval)

text \<open>
  C10, as the code has it. On one client with \<open>respect_server\<close> enabled, for calls of
  \<open>fetch_historical_data\<close> and \<open>fetch_batch_multi\<close> that are awaited one after the other,
  with a clock that does not run backwards and sleeps that last as long as asked, every
  two consecutive requests are at least \<open>delay_between_requests\<close> apart by the times the
  client records for them, and the first is as far from the stamp the client held
  before. Before each request the limiter computes the time elapsed since the recorded
  time of the last request and, when it is less than the delay, sleeps for the
  difference.
\<close>

theorem sequential_requests_spaced:
  assumes "respect_server (config c)" and "honoured_session c calls"
  shows "spaced (delay_between_requests (config c)) (snd (session c calls)) \<and>
         spaced (delay_between_requests (config c))
           (last_request_time c # snd (session c calls)) \<and>
         fst (rate_limit c r) =
           (if fst r - last_request_time c < delay_between_requests (config c)
            then Some (delay_between_requests (config c) - (fst r - last_request_time c))
            else None)"
proof -
  from session_spaced [OF assms]
  have s: "spaced (delay_between_requests (config c))
      (last_request_time c # snd (session c calls))"
    by simp
  have m: "fst (rate_limit c r) =
      (if fst r - last_request_time c < delay_between_requests (config c)
       then Some (delay_between_requests (config c) - (fst r - last_request_time c))
       else None)"
    using assms(1) by (simp add: rate_limit_def limiter_enter_def Let_def)
  from s spaced_tail [OF s] m show ?thesis by simp
qed

theorem sequential_requests_spaced_witness:
  "respect_server (config (YFinanceClient_init demo_config)) \<and>
   honoured_session (YFinanceClient_init demo_config) demo_calls \<and>
   snd (session (YFinanceClient_init demo_config) demo_calls) = [1000, 1060, 1120] \<and>
   spaced 60 [1000, 1060, 1120] \<and>
   fst (rate_limit (fst (perform (YFinanceClient_init demo_config) (Historical (1000, 1000))))
         (1010, 1060)) = Some 50"
proof -
  have h1: "respect_server (config (YFinanceClient_init demo_config))"
    by (simp add: client_eval)
  have g: "chunks 5 [''A'', ''B'', ''C'', ''D'', ''E'', ''F'', ''G''] =
      [[''A'', ''B'', ''C'', ''D'', ''E''], [''F'', ''G'']]"
    by (simp add: chunks_Cons)
  have h2: "honoured_session (YFinanceClient_init demo_config) demo_calls"
    by (simp add: client_eval g)
  have v: "snd (session (YFinanceClient_init demo_config) demo_calls) = [1000, 1060, 1120]"
    by (simp add: client_eval g)
  have p: "fst (perform (YFinanceClient_init demo_config) (Historical (1000, 1000))) =
      \<lparr>config = demo_config, last_request_time = 1000\<rparr>"
    by (simp add: client_eval)
  have h3: "respect_server (config \<lparr>config = demo_config, last_request_time = 1000\<rparr>)"
    "honoured_session \<lparr>config = demo_config, last_request_time = 1000\<rparr> []"
    by (simp_all add: demo_config_def)
  show ?thesis
    using h1 h2 v p
      sequential_requests_spaced [OF h1 h2, of "(0, 0)"]
      sequential_requests_spaced [OF h3, of "(1010, 1060)"]
    by (simp add: demo_config_def YFinanceClient_init_def)
qed


end
